theory Spec2Isabelle
  imports Complex_Main
begin

unbundle bit_operations_syntax

section \<open>The LoRa driver of pyLoraRFM9x (lora.py)\<close>

text \<open>
  The driver is the class \<open>LoRa\<close> of \<open>pyLoraRFM9x/lora.py\<close>. Its methods are
  embedded as functions over an explicit record of the object's attributes. The bus is
  the list of the transactions handed to \<open>spi.xfer\<close>, in order; what the chip answers
  to a read is an input of the model. Python integers are \<open>int\<close>, byte strings and
  lists of integers are \<open>int list\<close>, \<open>None\<close> is the \<open>None\<close> of an option type, and
  a raised exception is a value.
\<close>

subsection \<open>Constants\<close>

text \<open>
  The module \<open>constants.py\<close> (the star import of line 12) is not part of the sources at
  hand. The names the driver uses are the fields of a record that every function takes as
  its first argument, so that nothing is assumed about their values.
\<close>

record constants =
  REG_00_FIFO :: int
  REG_01_OP_MODE :: int
  REG_0D_FIFO_ADDR_PTR :: int
  REG_10_FIFO_RX_CURRENT_ADDR :: int
  REG_12_IRQ_FLAGS :: int
  REG_13_RX_NB_BYTES :: int
  REG_19_PKT_SNR_VALUE :: int
  REG_1A_PKT_RSSI_VALUE :: int
  REG_22_PAYLOAD_LENGTH :: int
  REG_40_DIO_MAPPING1 :: int
  MODE_SLEEP :: int
  MODE_STDBY :: int
  MODE_TX :: int
  MODE_RXCONTINUOUS :: int
  MODE_CAD :: int
  RX_TIMEOUT :: int
  RX_DONE :: int
  TX_DONE :: int
  CAD_DONE :: int
  CAD_DETECTED :: int
  FLAGS_REQ_ACK :: int
  FLAGS_ACK :: int
  BROADCAST_ADDRESS :: int

text \<open>
  One assignment of the constants, used where a theorem is evaluated at a concrete input:
  the register addresses and bit masks that the names spell out (the SX127x register map),
  two distinct flag bits and the broadcast address 255.
\<close>

definition K0 :: constants where
  "K0 = \<lparr> REG_00_FIFO = 0x00, REG_01_OP_MODE = 0x01, REG_0D_FIFO_ADDR_PTR = 0x0d,
          REG_10_FIFO_RX_CURRENT_ADDR = 0x10, REG_12_IRQ_FLAGS = 0x12,
          REG_13_RX_NB_BYTES = 0x13, REG_19_PKT_SNR_VALUE = 0x19,
          REG_1A_PKT_RSSI_VALUE = 0x1a, REG_22_PAYLOAD_LENGTH = 0x22,
          REG_40_DIO_MAPPING1 = 0x40,
          MODE_SLEEP = 0x00, MODE_STDBY = 0x01, MODE_TX = 0x03, MODE_RXCONTINUOUS = 0x05,
          MODE_CAD = 0x07,
          RX_TIMEOUT = 0x80, RX_DONE = 0x40, TX_DONE = 0x08, CAD_DONE = 0x04,
          CAD_DETECTED = 0x01,
          FLAGS_REQ_ACK = 0x80, FLAGS_ACK = 0x40, BROADCAST_ADDRESS = 255 \<rparr>"

subsection \<open>The object's state\<close>

datatype error = IndexError | AttributeError | ValueError

text \<open>The cipher handed to the constructor (\<open>crypto\<close>): an object with two methods.\<close>

record cipher =
  crypto_encrypt :: "int list \<Rightarrow> int list"
  crypto_decrypt :: "int list \<Rightarrow> int list"

text \<open>The named tuple \<open>Payload\<close> of lines 338 to 341.\<close>

record payload =
  message :: "int list"
  header_to :: int
  header_from :: int
  header_id :: int
  header_flags :: int
  rssi :: int
  snr :: real

text \<open>
  \<open>_set_default_mode\<close> holds one of three bound methods, chosen by the constructor from
  \<open>default_mode\<close> 0, 1 or 2 (lines 69 to 76).
\<close>

datatype default_mode = Default_rx | Default_idle | Default_sleep

text \<open>
  The attributes that the methods below read or write. \<open>mode\<close> and \<open>cad\<close> are
  \<open>None\<close> until first set. \<open>ack\<close> is the attribute \<open>_ack\<close> that line 333 reads:
  no method of the class assigns it, so it is \<open>None\<close> (absent) unless the caller has set
  it on the object. \<open>xfers\<close> lists the arguments of the calls of \<open>spi.xfer\<close> so far,
  and \<open>delivered\<close> the arguments of the calls of \<open>on_recv\<close> (the user's callback).
  The three timeouts that are only compared with the clock
  (\<open>wait_packet_sent_timeout\<close>, \<open>retry_timeout\<close> and \<open>cad_timeout\<close> at line 181)
  are represented by the lists of polls that the waiting functions take.
\<close>

record lora =
  mode :: "int option"
  cad :: "int option"
  receive_all :: bool
  acks :: bool
  ack :: "bool option"
  this_address :: int
  last_header_id :: int
  last_payload :: "payload option"
  crypto :: "cipher option"
  cad_timeout :: real
  set_default_mode :: default_mode
  xfers :: "int list list"
  delivered :: "payload list"

subsection \<open>Bus access (lines 267 to 285)\<close>

text \<open>
  \<open>_spi_write\<close> sends the register address with bit 7 set, followed by the payload; an
  integer payload is sent as the one-element list. \<open>_spi_read\<close> sends the address and
  \<open>length\<close> zero bytes; the bytes it returns are an input of the caller's model.
\<close>

definition spi_write :: "int \<Rightarrow> int list \<Rightarrow> lora \<Rightarrow> lora" where
  "spi_write register pl s = s\<lparr>xfers := xfers s @ [(register OR 0x80) # pl]\<rparr>"

definition spi_read :: "int \<Rightarrow> int \<Rightarrow> lora \<Rightarrow> lora" where
  "spi_read register len s = s\<lparr>xfers := xfers s @ [register # replicate (nat len) 0]\<rparr>"

subsection \<open>Mode transitions (lines 140 to 166 and 199 to 203)\<close>

definition set_mode_sleep :: "constants \<Rightarrow> lora \<Rightarrow> lora" where
  "set_mode_sleep K s =
     (if mode s \<noteq> Some (MODE_SLEEP K)
      then (spi_write (REG_01_OP_MODE K) [MODE_SLEEP K] s)\<lparr>mode := Some (MODE_SLEEP K)\<rparr>
      else s)"

definition set_mode_tx :: "constants \<Rightarrow> lora \<Rightarrow> lora" where
  "set_mode_tx K s =
     (if mode s \<noteq> Some (MODE_TX K)
      then (spi_write (REG_40_DIO_MAPPING1 K) [0x40]
             (spi_write (REG_01_OP_MODE K) [MODE_TX K] s))\<lparr>mode := Some (MODE_TX K)\<rparr>
      else s)"

definition set_mode_rx :: "constants \<Rightarrow> lora \<Rightarrow> lora" where
  "set_mode_rx K s =
     (if mode s \<noteq> Some (MODE_RXCONTINUOUS K)
      then (spi_write (REG_40_DIO_MAPPING1 K) [0x00]
             (spi_write (REG_01_OP_MODE K) [MODE_RXCONTINUOUS K] s))
           \<lparr>mode := Some (MODE_RXCONTINUOUS K)\<rparr>
      else s)"

definition set_mode_cad :: "constants \<Rightarrow> lora \<Rightarrow> lora" where
  "set_mode_cad K s =
     (if mode s \<noteq> Some (MODE_CAD K)
      then (spi_write (REG_40_DIO_MAPPING1 K) [0x80]
             (spi_write (REG_01_OP_MODE K) [MODE_CAD K] s))\<lparr>mode := Some (MODE_CAD K)\<rparr>
      else s)"

definition set_mode_idle :: "constants \<Rightarrow> lora \<Rightarrow> lora" where
  "set_mode_idle K s =
     (if mode s \<noteq> Some (MODE_STDBY K)
      then (spi_write (REG_01_OP_MODE K) [MODE_STDBY K] s)\<lparr>mode := Some (MODE_STDBY K)\<rparr>
      else s)"

text \<open>The call \<open>self._set_default_mode()\<close>.\<close>

definition call_default_mode :: "constants \<Rightarrow> lora \<Rightarrow> lora" where
  "call_default_mode K s =
     (case set_default_mode s of
        Default_rx \<Rightarrow> set_mode_rx K s
      | Default_idle \<Rightarrow> set_mode_idle K s
      | Default_sleep \<Rightarrow> set_mode_sleep K s)"

text \<open>
  The five transitions under one name, for the statements that speak of all of them: the
  mode each one targets, and the register writes it makes when it is not a no-op.
\<close>

datatype transition = Enter_sleep | Enter_idle | Enter_tx | Enter_rx | Enter_cad

fun enter :: "constants \<Rightarrow> transition \<Rightarrow> lora \<Rightarrow> lora" where
  "enter K Enter_sleep = set_mode_sleep K"
| "enter K Enter_idle = set_mode_idle K"
| "enter K Enter_tx = set_mode_tx K"
| "enter K Enter_rx = set_mode_rx K"
| "enter K Enter_cad = set_mode_cad K"

fun target :: "constants \<Rightarrow> transition \<Rightarrow> int" where
  "target K Enter_sleep = MODE_SLEEP K"
| "target K Enter_idle = MODE_STDBY K"
| "target K Enter_tx = MODE_TX K"
| "target K Enter_rx = MODE_RXCONTINUOUS K"
| "target K Enter_cad = MODE_CAD K"

fun write_sequence :: "constants \<Rightarrow> transition \<Rightarrow> int list list" where
  "write_sequence K Enter_sleep = [[REG_01_OP_MODE K OR 0x80, MODE_SLEEP K]]"
| "write_sequence K Enter_idle = [[REG_01_OP_MODE K OR 0x80, MODE_STDBY K]]"
| "write_sequence K Enter_tx =
     [[REG_01_OP_MODE K OR 0x80, MODE_TX K], [REG_40_DIO_MAPPING1 K OR 0x80, 0x40]]"
| "write_sequence K Enter_rx =
     [[REG_01_OP_MODE K OR 0x80, MODE_RXCONTINUOUS K], [REG_40_DIO_MAPPING1 K OR 0x80, 0x00]]"
| "write_sequence K Enter_cad =
     [[REG_01_OP_MODE K OR 0x80, MODE_CAD K], [REG_40_DIO_MAPPING1 K OR 0x80, 0x80]]"

subsection \<open>Encryption framing (lines 287 to 297)\<close>

text \<open>
  \<open>_encrypt\<close>: \<open>bytes([msg_length])\<close> raises \<open>ValueError\<close> when the length is not
  in \<open>range(256)\<close>. \<open>math.ceil((msg_length + 1) / 16)\<close> divides a small integer by a
  power of two, which is exact, so the ceiling is the integer one.
\<close>

definition encrypt :: "cipher \<Rightarrow> int list \<Rightarrow> error + int list" where
  "encrypt c msg =
     (let msg_length = int (length msg);
          padding = replicate (nat ((\<lceil>(of_int (msg_length + 1) :: real) / 16\<rceil> * 16)
                                      - (msg_length + 1))) (0::int)
      in if 255 < msg_length then Inl ValueError
         else Inr (crypto_encrypt c ([msg_length] @ msg @ padding)))"

text \<open>
  \<open>_decrypt\<close>: \<open>decrypted_msg[0]\<close> raises \<open>IndexError\<close> on the empty byte string;
  a byte is never negative, so the slice \<open>[1:msg_length + 1]\<close> is the first
  \<open>msg_length\<close> bytes after the first one (fewer when there are fewer).
\<close>

definition decrypt :: "cipher \<Rightarrow> int list \<Rightarrow> error + int list" where
  "decrypt c msg =
     (let decrypted_msg = crypto_decrypt c msg
      in case decrypted_msg of
           [] \<Rightarrow> Inl IndexError
         | msg_length # rest \<Rightarrow> Inr (take (nat msg_length) rest))"

subsection \<open>Waiting (lines 168 to 197)\<close>

text \<open>
  The waiting loops poll attributes that the interrupt handler writes. A wait takes the
  list of its polls, one element for each pass through the loop that the clock still
  allows, and a function \<open>tick\<close> that applies what happened since the previous poll (an
  interrupt or nothing) to the state; the list is used up when the timeout has elapsed.
\<close>

fun wait_packet_sent ::
  "constants \<Rightarrow> ('e \<Rightarrow> lora \<Rightarrow> lora) \<Rightarrow> 'e list \<Rightarrow> lora \<Rightarrow> bool \<times> lora" where
  "wait_packet_sent K tick [] s = (False, s)"
| "wait_packet_sent K tick (e # es) s =
     (let s' = tick e s
      in if mode s' \<noteq> Some (MODE_TX K) then (True, s') else wait_packet_sent K tick es s')"

text \<open>
  \<open>_is_channel_active\<close> is a generator: it enters CAD mode and yields (the value
  \<open>None\<close>) for as long as the mode is CAD; its \<open>return self._cad\<close> ends the
  iteration, and the \<open>for\<close> loop of \<open>wait_cad\<close> does not see the returned value. So
  in \<open>wait_cad\<close> the variable \<open>status\<close> is always \<open>None\<close>: each pass either
  returns \<open>True\<close> (timeout) or sleeps; when the generator ends, the loop ends and
  \<open>wait_cad\<close> returns \<open>None\<close>. \<open>cad_loop\<close> is that loop, after \<open>set_mode_cad\<close>.
\<close>

fun cad_loop ::
  "constants \<Rightarrow> ('e \<Rightarrow> lora \<Rightarrow> lora) \<Rightarrow> 'e list \<Rightarrow> lora \<Rightarrow> bool option \<times> lora" where
  "cad_loop K tick [] s =
     (if mode s = Some (MODE_CAD K) then (Some True, s) else (None, s))"
| "cad_loop K tick (e # es) s =
     (if mode s = Some (MODE_CAD K) then cad_loop K tick es (tick e s) else (None, s))"

definition wait_cad ::
  "constants \<Rightarrow> ('e \<Rightarrow> lora \<Rightarrow> lora) \<Rightarrow> 'e list \<Rightarrow> lora \<Rightarrow> bool option \<times> lora" where
  "wait_cad K tick es s =
     (if cad_timeout s = 0 then (Some False, s)
      else cad_loop K tick es (set_mode_cad K s))"

subsection \<open>Sending (lines 206 to 265)\<close>

text \<open>The argument \<open>data\<close> of \<open>send\<close>, by its Python type (lines 217 to 222).\<close>

datatype pydata = PyInt int | PyBytes "int list" | PyStr "int list" | PyList "int list"

fun data_list :: "pydata \<Rightarrow> int list" where
  "data_list (PyInt n) = [n]"
| "data_list (PyBytes bs) = bs"
| "data_list (PyStr cs) = cs"
| "data_list (PyList xs) = xs"

text \<open>\<open>bytes(data)\<close> raises \<open>ValueError\<close> unless every element is in \<open>range(256)\<close>.\<close>

definition to_bytes :: "int list \<Rightarrow> error + int list" where
  "to_bytes xs = (if list_all (\<lambda>x. 0 \<le> x \<and> x < 256) xs then Inr xs else Inl ValueError)"

text \<open>
  Lines 217 to 225 of \<open>send\<close>: the data as a list, encrypted when a cipher is set.
\<close>

definition prepare_data :: "lora \<Rightarrow> pydata \<Rightarrow> error + int list" where
  "prepare_data s data_arg =
     (let data0 = data_list data_arg
      in case crypto s of
           None \<Rightarrow> Inr data0
         | Some c \<Rightarrow> (case to_bytes data0 of
                        Inl e \<Rightarrow> Inl e
                      | Inr bs \<Rightarrow> encrypt c bs))"

text \<open>The block under the bus lock that loads the transmit buffer (lines 228 to 231).\<close>

definition load_fifo :: "constants \<Rightarrow> int list \<Rightarrow> lora \<Rightarrow> lora" where
  "load_fifo K pl s =
     spi_write (REG_22_PAYLOAD_LENGTH K) [int (length pl)]
       (spi_write (REG_00_FIFO K) pl
         (spi_write (REG_0D_FIFO_ADDR_PTR K) [0] s))"

text \<open>The polls of the three waits of one call of \<open>send\<close>.\<close>

record 'e send_env =
  ev_sent1 :: "'e list"
  ev_cad :: "'e list"
  ev_sent2 :: "'e list"

definition send ::
  "constants \<Rightarrow> ('e \<Rightarrow> lora \<Rightarrow> lora) \<Rightarrow> 'e send_env \<Rightarrow> pydata \<Rightarrow> int \<Rightarrow> int \<Rightarrow> int \<Rightarrow> lora
   \<Rightarrow> (error + bool) \<times> lora" where
  "send K tick env data_arg header_to_arg header_id_arg header_flags_arg s =
     (let s1 = snd (wait_packet_sent K tick (ev_sent1 env) s);
          (CAD_status, s2) = wait_cad K tick (ev_cad env) s1
      in if CAD_status = Some True then (Inr False, s2)
         else
           let s3 = set_mode_idle K s2;
               header = [header_to_arg, this_address s3, header_id_arg, header_flags_arg]
           in case prepare_data s3 data_arg of
                Inl e \<Rightarrow> (Inl e, s3)
              | Inr data1 \<Rightarrow>
                  let pl = header @ data1;
                      s4 = load_fifo K pl s3;
                      s5 = set_mode_tx K s4;
                      (sent, s6) = wait_packet_sent K tick (ev_sent2 env) s5
                  in (Inr sent, s6))"

text \<open>
  \<open>send_ack\<close> runs inside the interrupt handler. Callbacks are served one at a time, so
  no other interrupt is handled while it polls: its ticks change nothing.
\<close>

definition quiet :: "unit \<Rightarrow> lora \<Rightarrow> lora" where
  "quiet e s = s"

definition send_ack ::
  "constants \<Rightarrow> unit send_env \<Rightarrow> unit list \<Rightarrow> int \<Rightarrow> int \<Rightarrow> lora \<Rightarrow> error option \<times> lora" where
  "send_ack K env es header_to_arg header_id_arg s =
     (case send K quiet env (PyBytes [33]) header_to_arg header_id_arg (FLAGS_ACK K) s of
        (Inl e, s1) \<Rightarrow> (Some e, s1)
      | (Inr sent, s1) \<Rightarrow> (None, snd (wait_packet_sent K quiet es s1)))"

subsection \<open>The interrupt handler (lines 299 to 355)\<close>

text \<open>
  One interrupt: what the chip answers to the handler's reads (the flags, the packet
  length, the buffer pointer, the buffer's bytes, the two signal registers), and the polls
  of the waits of \<open>send_ack\<close>, should the handler acknowledge.
\<close>

record irq =
  irq_flags :: int
  rx_nb_bytes :: int
  rx_current_addr :: int
  fifo :: "int list"
  pkt_snr :: int
  pkt_rssi :: int
  ack_env :: "unit send_env"
  ack_sent :: "unit list"

text \<open>How a block of the handler ends: at its end, by \<open>return\<close>, or by an exception.\<close>

datatype flow = Fallthrough | Return | Raise error

text \<open>Lines 330 and 331: the message is decrypted when its length looks like a cipher's.\<close>

definition maybe_decrypt :: "lora \<Rightarrow> int list \<Rightarrow> error + int list" where
  "maybe_decrypt s msg =
     (case crypto s of
        Some c \<Rightarrow> if int (length msg) mod 16 = 0 then decrypt c msg else Inr msg
      | None \<Rightarrow> Inr msg)"

text \<open>
  The condition of line 333. The attribute \<open>_ack\<close> is read only when the three
  conditions before it hold (\<open>and\<close> short-circuits); reading it raises
  \<open>AttributeError\<close> when the object has no such attribute.
\<close>

definition ack_due :: "constants \<Rightarrow> int \<Rightarrow> int \<Rightarrow> lora \<Rightarrow> error + bool" where
  "ack_due K hto hflags s =
     (if hto = this_address s \<and> hflags AND FLAGS_REQ_ACK K \<noteq> 0
         \<and> \<not> (hflags AND FLAGS_ACK K \<noteq> 0)
      then (case ack s of None \<Rightarrow> Inl AttributeError | Some a \<Rightarrow> Inr (\<not> a))
      else Inr False)"

text \<open>Lines 333 and 334: the acknowledgment, when one is due.\<close>

definition acknowledge ::
  "constants \<Rightarrow> irq \<Rightarrow> int \<Rightarrow> int \<Rightarrow> int \<Rightarrow> int \<Rightarrow> lora \<Rightarrow> error option \<times> lora" where
  "acknowledge K h hto hfrom hid hflags s =
     (case ack_due K hto hflags s of
        Inl e \<Rightarrow> (Some e, s)
      | Inr True \<Rightarrow> send_ack K (ack_env h) (ack_sent h) hfrom hid s
      | Inr False \<Rightarrow> (None, s))"

text \<open>
  Lines 336 to 344: back to receive mode, the packet becomes \<open>_last_payload\<close>, and the
  user's callback is called with it unless it is an ACK.
\<close>

definition publish :: "constants \<Rightarrow> payload \<Rightarrow> lora \<Rightarrow> lora" where
  "publish K p s =
     (let s2 = set_mode_rx K s;
          s3 = s2\<lparr>last_payload := Some p\<rparr>
      in if \<not> (header_flags p AND FLAGS_ACK K \<noteq> 0)
         then s3\<lparr>delivered := delivered s3 @ [p]\<rparr>
         else s3)"

text \<open>Line 325: the bytes after the header; \<open>packet[4:]\<close> is the rest of the list.\<close>

definition rx_message :: "irq \<Rightarrow> int list" where
  "rx_message h = (if rx_nb_bytes h > 4 then drop 4 (fifo h) else [])"

text \<open>
  The body of \<open>if packet_len >= 4\<close> (lines 321 to 344). Reading \<open>packet[0]\<close> to
  \<open>packet[3]\<close> raises \<open>IndexError\<close> on a list of fewer than four bytes.
\<close>

definition rx_packet :: "constants \<Rightarrow> irq \<Rightarrow> int \<Rightarrow> real \<Rightarrow> lora \<Rightarrow> flow \<times> lora" where
  "rx_packet K h rssi_v snr_v s =
     (if length (fifo h) < 4 then (Raise IndexError, s)
      else
        let hto = fifo h ! 0;
            hfrom = fifo h ! 1;
            hid = fifo h ! 2;
            hflags = fifo h ! 3;
            msg = rx_message h
        in if this_address s \<noteq> hto \<and> BROADCAST_ADDRESS K \<noteq> hto \<and> \<not> receive_all s
           then (Return, s)
           else
             (case maybe_decrypt s msg of
                Inl e \<Rightarrow> (Raise e, s)
              | Inr msg' \<Rightarrow>
                 (case acknowledge K h hto hfrom hid hflags s of
                    (Some e, s1) \<Rightarrow> (Raise e, s1)
                  | (None, s1) \<Rightarrow>
                      (Fallthrough,
                       publish K \<lparr> message = msg', header_to = hto, header_from = hfrom,
                                   header_id = hid, header_flags = hflags,
                                   rssi = rssi_v, snr = snr_v \<rparr> s1))))"

text \<open>
  The block under the bus lock that drains the receive buffer (lines 303 to 313): the
  reads and writes it makes, in order.
\<close>

definition rx_drain :: "constants \<Rightarrow> irq \<Rightarrow> lora \<Rightarrow> lora" where
  "rx_drain K h s =
     (let s1 = spi_read (REG_13_RX_NB_BYTES K) 1 s;
          s2 = spi_read (REG_10_FIFO_RX_CURRENT_ADDR K) 1 s1;
          s3 = spi_write (REG_0D_FIFO_ADDR_PTR K) [rx_current_addr h] s2;
          s4 = spi_read (REG_00_FIFO K) (rx_nb_bytes h) s3;
          s5 = spi_write (REG_12_IRQ_FLAGS K) [0xff] s4;
          s6 = spi_read (REG_19_PKT_SNR_VALUE K) 1 s5
      in spi_read (REG_1A_PKT_RSSI_VALUE K) 1 s6)"

text \<open>
  Lines 315 to 317: the register holds the ratio in quarters of a dB, in two's complement;
  the division by 4 is a float division, exact for these values.
\<close>

definition snr_value :: "int \<Rightarrow> real" where
  "snr_value v = of_int (if v > 127 then (256 - v) * - 1 else v) / 4"

text \<open>The receive branch (lines 303 to 344).\<close>

definition rx_done :: "constants \<Rightarrow> irq \<Rightarrow> lora \<Rightarrow> flow \<times> lora" where
  "rx_done K h s =
     (let packet_len = rx_nb_bytes h;
          s7 = rx_drain K h s;
          rssi_v = - 137 + pkt_rssi h;
          snr_v = snr_value (pkt_snr h)
      in if packet_len \<ge> 4 then rx_packet K h rssi_v snr_v s7 else (Fallthrough, s7))"

text \<open>
  \<open>_handle_interrupt\<close>. The result is the exception that ended the handler, if any,
  and the state it leaves.
\<close>

definition handle_interrupt :: "constants \<Rightarrow> irq \<Rightarrow> lora \<Rightarrow> error option \<times> lora" where
  "handle_interrupt K h s =
     (let s0 = spi_read (REG_12_IRQ_FLAGS K) 1 s;
          (fl, s1) =
            (if mode s0 = Some (MODE_RXCONTINUOUS K) \<and> irq_flags h AND RX_DONE K \<noteq> 0
             then rx_done K h s0
             else if mode s0 = Some (MODE_TX K) \<and> irq_flags h AND TX_DONE K \<noteq> 0
             then (Fallthrough, call_default_mode K s0)
             else if mode s0 = Some (MODE_CAD K) \<and> irq_flags h AND CAD_DONE K \<noteq> 0
             then (Fallthrough,
                   call_default_mode K (s0\<lparr>cad := Some (irq_flags h AND CAD_DETECTED K)\<rparr>))
             else if mode s0 = Some (MODE_RXCONTINUOUS K) \<and> irq_flags h AND RX_TIMEOUT K \<noteq> 0
             then (Fallthrough, s0)
             else (Fallthrough, s0))
      in case fl of
           Fallthrough \<Rightarrow> (None, spi_write (REG_12_IRQ_FLAGS K) [0xff] s1)
         | Return \<Rightarrow> (None, s1)
         | Raise e \<Rightarrow> (Some e, s1))"

text \<open>
  For the caller's thread a poll is preceded by an interrupt or by none. An exception of
  the handler ends the handler only: the caller goes on with the state it left.
\<close>

definition tick :: "constants \<Rightarrow> irq option \<Rightarrow> lora \<Rightarrow> lora" where
  "tick K e s = (case e of None \<Rightarrow> s | Some h \<Rightarrow> snd (handle_interrupt K h s))"

subsection \<open>Reliable sending (lines 237 to 260)\<close>

text \<open>The test of lines 253 to 256 on the last received packet.\<close>

definition got_ack :: "constants \<Rightarrow> lora \<Rightarrow> bool" where
  "got_ack K s =
     (case last_payload s of
        None \<Rightarrow> False
      | Some p \<Rightarrow> header_to p = this_address s \<and> header_flags p AND FLAGS_ACK K \<noteq> 0
                  \<and> header_id p = last_header_id s)"

text \<open>The loop of lines 252 to 259: it returns \<open>True\<close> from inside, or runs out of time.\<close>

fun wait_ack :: "constants \<Rightarrow> irq option list \<Rightarrow> lora \<Rightarrow> bool \<times> lora" where
  "wait_ack K [] s = (False, s)"
| "wait_ack K (e # es) s =
     (let s' = tick K e s
      in if got_ack K s' then (True, s') else wait_ack K es s')"

text \<open>The polls of one attempt: those of \<open>send\<close>, then those of the wait for the ACK.\<close>

record attempt_env =
  att_send :: "irq option send_env"
  att_ack :: "irq option list"

text \<open>
  The \<open>for\<close> loop of \<open>send_to_wait\<close>, over the environments of the attempts still to
  come. Besides the returned value and the state, the result counts the calls of
  \<open>send\<close> that the loop made (the attempts); the code itself returns the value only.
\<close>

fun attempts ::
  "constants \<Rightarrow> pydata \<Rightarrow> int \<Rightarrow> int \<Rightarrow> attempt_env list \<Rightarrow> lora
   \<Rightarrow> (error + bool) \<times> nat \<times> lora" where
  "attempts K data_arg header_to_arg header_flags_arg [] s = (Inr False, 0, s)"
| "attempts K data_arg header_to_arg header_flags_arg (a # as) s =
     (let header_flags' = (if acks s then header_flags_arg OR FLAGS_REQ_ACK K
                           else header_flags_arg)
      in case send K (tick K) (att_send a) data_arg header_to_arg (last_header_id s)
                header_flags' s of
           (Inl e, s1) \<Rightarrow> (Inl e, 1, s1)
         | (Inr False, s1) \<Rightarrow>
             (case attempts K data_arg header_to_arg header_flags' as s1 of
                (r, n, s2) \<Rightarrow> (r, Suc n, s2))
         | (Inr True, s1) \<Rightarrow>
             if \<not> acks s1 \<or> header_to_arg = BROADCAST_ADDRESS K then (Inr True, 1, s1)
             else (case wait_ack K (att_ack a) s1 of
                     (True, s2) \<Rightarrow> (Inr True, 1, s2)
                   | (False, s2) \<Rightarrow>
                       (case attempts K data_arg header_to_arg header_flags' as s2 of
                          (r, n, s3) \<Rightarrow> (r, Suc n, s3))))"

text \<open>
  \<open>send_to_wait\<close>: \<open>range(retries + 1)\<close> has \<open>retries + 1\<close> elements, none when that
  is negative. \<open>env i\<close> is the environment of attempt \<open>i\<close>.
\<close>

definition send_to_wait ::
  "constants \<Rightarrow> (nat \<Rightarrow> attempt_env) \<Rightarrow> pydata \<Rightarrow> int \<Rightarrow> int \<Rightarrow> int \<Rightarrow> lora
   \<Rightarrow> (error + bool) \<times> nat \<times> lora" where
  "send_to_wait K env data_arg header_to_arg header_flags_arg retries s =
     attempts K data_arg header_to_arg header_flags_arg
       (map env [0 ..< nat (retries + 1)])
       (s\<lparr>last_header_id := (last_header_id s + 1) AND 0xFF\<rparr>)"

subsection \<open>Auxiliary notions for the statements\<close>

text \<open>
  The attributes that the constructor sets and no method changes afterwards, as one tuple.
\<close>

definition config ::
  "lora \<Rightarrow> bool \<times> bool \<times> bool option \<times> int \<times> int \<times> cipher option \<times> real \<times> default_mode" where
  "config s = (receive_all s, acks s, ack s, this_address s, last_header_id s, crypto s,
               cad_timeout s, set_default_mode s)"

text \<open>
  Two states that differ in the mode and in the bus log only, the second log continuing
  the first: the relation between the states before and after a bus operation.
\<close>

definition bus_only :: "lora \<Rightarrow> lora \<Rightarrow> bool" where
  "bus_only s s' \<longleftrightarrow> (\<exists>m ys. s' = s\<lparr>mode := m, xfers := xfers s @ ys\<rparr>)"

text \<open>
  The early return of line 328: the handler is in the receive branch with a packet of at
  least 4 bytes whose destination is neither this device nor the broadcast address, and
  \<open>receive_all\<close> is off.
\<close>

definition address_filtered :: "constants \<Rightarrow> irq \<Rightarrow> lora \<Rightarrow> bool" where
  "address_filtered K h s =
     (mode s = Some (MODE_RXCONTINUOUS K) \<and> irq_flags h AND RX_DONE K \<noteq> 0
      \<and> 4 \<le> rx_nb_bytes h \<and> 4 \<le> length (fifo h)
      \<and> this_address s \<noteq> fifo h ! 0 \<and> BROADCAST_ADDRESS K \<noteq> fifo h ! 0
      \<and> \<not> receive_all s)"

subsection \<open>Concrete inputs\<close>

text \<open>
  A device with address 1 in receive mode, with acknowledgments enabled, no cipher, no
  channel-activity check, the attribute \<open>_ack\<close> set to \<open>False\<close> by the caller, and
  an empty bus log.
\<close>

definition dev :: lora where
  "dev = \<lparr> mode = Some 0x05, cad = None, receive_all = False, acks = True, ack = Some False,
           this_address = 1, last_header_id = 0, last_payload = None, crypto = None,
           cad_timeout = 0, set_default_mode = Default_rx, xfers = [], delivered = [] \<rparr>"

text \<open>No poll at all: every wait has timed out when it starts.\<close>

definition no_polls :: "unit send_env" where
  "no_polls = \<lparr> ev_sent1 = [], ev_cad = [], ev_sent2 = [] \<rparr>"

text \<open>The interrupt of a finished channel-activity detection that found activity.\<close>

definition cad_detected :: irq where
  "cad_detected = \<lparr> irq_flags = 0x05, rx_nb_bytes = 0, rx_current_addr = 0, fifo = [],
                    pkt_snr = 0, pkt_rssi = 0, ack_env = no_polls, ack_sent = [] \<rparr>"

text \<open>A toy cipher, its own inverse.\<close>

definition xor_cipher :: cipher where
  "xor_cipher = \<lparr> crypto_encrypt = map (\<lambda>b. b XOR 0x5a), crypto_decrypt = map (\<lambda>b. b XOR 0x5a) \<rparr>"

text \<open>
  The interrupt of a received packet with the given bytes: the receive-done flag, the
  length of the packet, and no poll left for the waits of an acknowledgment.
\<close>

definition packet :: "int list \<Rightarrow> irq" where
  "packet bs = \<lparr> irq_flags = 0x40, rx_nb_bytes = int (length bs), rx_current_addr = 0,
                  fifo = bs, pkt_snr = 40, pkt_rssi = 77, ack_env = no_polls, ack_sent = [] \<rparr>"

text \<open>A cipher that answers the empty byte string with four bytes.\<close>

definition stub_cipher :: cipher where
  "stub_cipher = \<lparr> crypto_encrypt = (\<lambda>x. x),
                    crypto_decrypt = (\<lambda>x. if x = [] then [2, 7, 8, 9] else x) \<rparr>"

text \<open>The interrupt of a finished transmission.\<close>

definition tx_done :: irq where
  "tx_done = \<lparr> irq_flags = 0x08, rx_nb_bytes = 0, rx_current_addr = 0, fifo = [],
               pkt_snr = 0, pkt_rssi = 0, ack_env = no_polls, ack_sent = [] \<rparr>"

text \<open>
  The environment of a call of \<open>send\<close> that goes well: one poll finds the radio not
  transmitting, and the transmit-done interrupt arrives before the first poll of the last
  wait.
\<close>

definition one_send :: "irq option send_env" where
  "one_send = \<lparr> ev_sent1 = [None], ev_cad = [], ev_sent2 = [Some tx_done] \<rparr>"



section \<open>Theorems\<close>

subsection \<open>The sample constants\<close>

lemma K0_simps [simp]:
  "REG_00_FIFO K0 = 0x00" "REG_01_OP_MODE K0 = 0x01" "REG_0D_FIFO_ADDR_PTR K0 = 0x0d"
  "REG_10_FIFO_RX_CURRENT_ADDR K0 = 0x10" "REG_12_IRQ_FLAGS K0 = 0x12"
  "REG_13_RX_NB_BYTES K0 = 0x13" "REG_19_PKT_SNR_VALUE K0 = 0x19"
  "REG_1A_PKT_RSSI_VALUE K0 = 0x1a" "REG_22_PAYLOAD_LENGTH K0 = 0x22"
  "REG_40_DIO_MAPPING1 K0 = 0x40"
  "MODE_SLEEP K0 = 0x00" "MODE_STDBY K0 = 0x01" "MODE_TX K0 = 0x03"
  "MODE_RXCONTINUOUS K0 = 0x05" "MODE_CAD K0 = 0x07"
  "RX_TIMEOUT K0 = 0x80" "RX_DONE K0 = 0x40" "TX_DONE K0 = 0x08" "CAD_DONE K0 = 0x04"
  "CAD_DETECTED K0 = 0x01" "FLAGS_REQ_ACK K0 = 0x80" "FLAGS_ACK K0 = 0x40"
  "BROADCAST_ADDRESS K0 = 255"
  by (simp_all add: K0_def)

subsection \<open>Mode transitions\<close>

lemmas set_mode_defs =
  set_mode_sleep_def set_mode_idle_def set_mode_tx_def set_mode_rx_def set_mode_cad_def
  spi_write_def

lemma enter_mode: "mode (enter K t s) = Some (target K t)"
  by (cases t) (simp_all add: set_mode_defs)

lemma enter_noop: "mode s = Some (target K t) \<Longrightarrow> enter K t s = s"
  by (cases t) (simp_all add: set_mode_defs)

lemma enter_writes:
  "mode s \<noteq> Some (target K t) \<Longrightarrow> xfers (enter K t s) = xfers s @ write_sequence K t"
  by (cases t) (simp_all add: set_mode_defs)

text \<open>
  C9. Every mode transition is idempotent. When the stored mode already is the target,
  the transition changes nothing, so it makes no register write. Otherwise the first of
  two calls in a row appends the transition's write sequence to the bus log once, and the
  second call adds nothing: the two calls together make exactly one write sequence.
\<close>

theorem C9_mode_transition_idempotent:
  "(mode s = Some (target K t) \<longrightarrow> enter K t s = s)
   \<and> enter K t (enter K t s) = enter K t s
   \<and> (mode s \<noteq> Some (target K t) \<longrightarrow>
        xfers (enter K t (enter K t s)) = xfers s @ write_sequence K t)"
  by (simp add: enter_noop enter_mode enter_writes)

theorem C9_witness:
  "enter K0 Enter_rx dev = dev
   \<and> xfers (enter K0 Enter_tx (enter K0 Enter_tx dev)) = [[0x81, 0x03], [0xc0, 0x40]]"
  using C9_mode_transition_idempotent[of dev K0 Enter_rx]
        C9_mode_transition_idempotent[of dev K0 Enter_tx]
  by (simp add: dev_def K0_def set_mode_defs)

subsection \<open>What no method changes\<close>

lemma config_spi_write: "config (spi_write r pl s) = config s"
  by (simp add: config_def spi_write_def)
lemma config_spi_read: "config (spi_read r n s) = config s"
  by (simp add: config_def spi_read_def)
lemma config_enter: "config (enter K t s) = config s"
  by (cases t) (simp_all add: config_def set_mode_defs)
lemma config_set_mode:
  "config (set_mode_idle K s) = config s" "config (set_mode_tx K s) = config s"
  "config (set_mode_rx K s) = config s" "config (set_mode_cad K s) = config s"
  "config (set_mode_sleep K s) = config s"
  using config_enter[of K Enter_idle s] config_enter[of K Enter_tx s] config_enter[of K Enter_rx s]
    config_enter[of K Enter_cad s] config_enter[of K Enter_sleep s] by simp_all
lemma config_call_default_mode: "config (call_default_mode K s) = config s"
  by (simp add: call_default_mode_def config_set_mode split: default_mode.splits)
lemma config_load_fifo: "config (load_fifo K pl s) = config s"
  by (simp add: load_fifo_def config_spi_write)

lemma config_wait_packet_sent:
  "(\<And>e s. config (tk e s) = config s) \<Longrightarrow> config (snd (wait_packet_sent K tk es s)) = config s"
  by (induction es arbitrary: s) (simp_all add: Let_def)

lemma config_cad_loop:
  "(\<And>e s. config (tk e s) = config s) \<Longrightarrow> config (snd (cad_loop K tk es s)) = config s"
  by (induction es arbitrary: s) (simp_all add: Let_def)

lemma config_wait_cad:
  "(\<And>e s. config (tk e s) = config s) \<Longrightarrow> config (snd (wait_cad K tk es s)) = config s"
  by (simp add: wait_cad_def config_cad_loop config_set_mode)

lemma config_send:
  assumes "\<And>e s. config (tk e s) = config s"
  shows "config (snd (send K tk env d t i f s)) = config s"
proof -
  note c = config_wait_packet_sent[OF assms] config_wait_cad[OF assms] config_set_mode config_load_fifo
  show ?thesis
    unfolding send_def Let_def
    by (auto split: prod.splits sum.splits option.splits simp: c
        dest!: arg_cong[where f = "\<lambda>p. config (snd p)"])
qed

lemma config_quiet: "config (quiet e s) = config s"
  by (simp add: quiet_def)

lemma config_send_ack: "config (snd (send_ack K env es t i s)) = config s"
  unfolding send_ack_def
  using config_send[of quiet K env "PyBytes [33]" t i "FLAGS_ACK K" s, OF config_quiet]
        config_wait_packet_sent[of quiet K es, OF config_quiet]
  by (auto split: prod.splits sum.splits)

lemma config_upd:
  "config (s\<lparr>last_payload := p\<rparr>) = config s"
  "config (s\<lparr>delivered := d\<rparr>) = config s"
  "config (s\<lparr>cad := c\<rparr>) = config s"
  by (simp_all add: config_def)

lemma config_acknowledge: "config (snd (acknowledge K h hto hfrom hid hflags s)) = config s"
  unfolding acknowledge_def
  by (simp add: config_send_ack split: sum.splits bool.splits)

lemma config_publish: "config (publish K p s) = config (s::lora)"
  unfolding publish_def Let_def
  by (simp add: config_upd config_set_mode)

lemma config_acknowledgeD:
  "acknowledge K h hto hfrom hid hflags s = (e, s1) \<Longrightarrow> config s1 = config s"
  using config_acknowledge[of K h hto hfrom hid hflags s] by simp

lemma config_rx_packet: "config (snd (rx_packet K h r sn s)) = config s"
  unfolding rx_packet_def Let_def
  by (auto simp: config_publish split: sum.splits option.splits prod.splits
        dest: config_acknowledgeD)

lemma config_rx_done: "config (snd (rx_done K h s)) = config s"
  unfolding rx_done_def Let_def
  by (simp add: rx_drain_def config_rx_packet config_spi_write config_spi_read)

lemma config_handle_interrupt: "config (snd (handle_interrupt K h s)) = config s"
proof -
  have "config (snd (rx_done K h (spi_read (REG_12_IRQ_FLAGS K) 1 s))) = config s"
    by (simp add: config_rx_done config_spi_read)
  then show ?thesis
    unfolding handle_interrupt_def Let_def
    by (auto split: prod.splits flow.splits if_splits
          simp: config_spi_write config_spi_read config_call_default_mode config_upd)
qed

lemma config_tick: "config (tick K e s) = config s"
  by (simp add: tick_def config_handle_interrupt split: option.splits)

lemma config_wait_ack: "config (snd (wait_ack K es s)) = config s"
  by (induction es arbitrary: s) (simp_all add: Let_def config_tick)


lemma config_attempts: "config (snd (snd (attempts K d t f as s))) = config s"
proof (induction as arbitrary: s f)
  case Nil
  then show ?case by simp
next
  case (Cons a as)
  define f' where "f' = (if acks s then f OR FLAGS_REQ_ACK K else f)"
  obtain r1 s1 where S: "send K (tick K) (att_send a) d t (last_header_id s) f' s = (r1, s1)"
    by force
  have c1: "config s1 = config s"
    using config_send[of "tick K" K "att_send a" d t "last_header_id s" f' s] S
    by (simp add: config_tick)
  obtain b s2 where W: "wait_ack K (att_ack a) s1 = (b, s2)" by force
  have c2: "config s2 = config s"
    using config_wait_ack[of K "att_ack a" s1] W c1 by simp
  obtain r3 n3 s3 where A1: "attempts K d t f' as s1 = (r3, n3, s3)"
    by (cases "attempts K d t f' as s1") auto
  have c3: "config s3 = config s"
    using Cons.IH[of f' s1] A1 c1 by simp
  obtain r4 n4 s4 where A2: "attempts K d t f' as s2 = (r4, n4, s4)"
    by (cases "attempts K d t f' as s2") auto
  have c4: "config s4 = config s"
    using Cons.IH[of f' s2] A2 c2 by simp
  show ?case
    using S W A1 A2 c1 c2 c3 c4
    by (simp add: Let_def f'_def[symmetric] split: sum.splits bool.splits)
qed


lemma and_255_mod: "(x::int) AND 0xFF = x mod 256"
proof -
  have "x AND mask 8 = x mod 2 ^ 8"
    by (simp add: take_bit_eq_mask[symmetric] take_bit_eq_mod)
  then show ?thesis by (simp add: mask_eq_exp_minus_1)
qed

subsection \<open>The sequence id\<close>

lemma send_to_wait_id:
  "last_header_id (snd (snd (send_to_wait K env d t f n s))) = (last_header_id s + 1) mod 256"
proof -
  have "config (snd (snd (send_to_wait K env d t f n s)))
        = config (s\<lparr>last_header_id := (last_header_id s + 1) AND 0xFF\<rparr>)"
    unfolding send_to_wait_def by (rule config_attempts)
  then show ?thesis by (simp add: config_def and_255_mod)
qed

text \<open>
  C5. A call of \<open>send_to_wait\<close> leaves the sequence id one higher modulo 256, whatever
  the number of attempts, the interrupts served while it waits, and the way it ends
  (success, failure or an exception of the framing). After two calls in a row, with any
  arguments and environments, it is two higher modulo 256.
\<close>

theorem C5_sequence_id_once_per_call:
  "last_header_id (snd (snd (send_to_wait K env d t f n s))) = (last_header_id s + 1) mod 256
   \<and> last_header_id (snd (snd (send_to_wait K env' d' t' f' n'
                                  (snd (snd (send_to_wait K env d t f n s))))))
       = (last_header_id s + 2) mod 256"
  by (simp add: send_to_wait_id mod_simps add.commute)

subsection \<open>Encryption framing\<close>

lemma ceiling_16: "\<lceil>(of_int a :: real) / 16\<rceil> = (a + 15) div 16"
proof -
  have "\<lceil>(of_int a :: real) / of_int 16\<rceil> = - (- a div 16)"
    by (rule ceiling_divide_eq_div)
  then show ?thesis by simp
qed

lemma pad_nat: "(15::nat) - n mod 16 + (n + 1) = 16 * ((n + 16) div 16)"
proof -
  define q r where "q = n div 16" and "r = n mod 16"
  have n: "n = 16 * q + r" and r: "r < 16" by (simp_all add: q_def r_def)
  have "(n + 16) div 16 = q + 1" by (simp add: q_def)
  then show ?thesis using n r unfolding r_def[symmetric] by simp
qed

lemma padding_length:
  "nat (\<lceil>(of_int (int n + 1) :: real) / 16\<rceil> * 16 - (int n + 1)) = 15 - n mod 16"
proof -
  have "(int n + 1 + 15) div 16 = int ((n + 16) div 16)"
    by (simp add: zdiv_int)
  then have "\<lceil>(of_int (int n + 1) :: real) / 16\<rceil> * 16 - (int n + 1)
        = int (16 * ((n + 16) div 16)) - int (n + 1)"
    unfolding ceiling_16 by simp
  also have "\<dots> = int (15 - n mod 16)"
    using pad_nat[of n] by linarith
  finally show ?thesis by simp
qed

lemma framed_length: "(1 + n + (15 - n mod 16)) mod 16 = (0::nat)"
proof -
  have "1 + n + (15 - n mod 16) = 16 * ((n + 16) div 16)"
    using pad_nat[of n] by simp
  then show ?thesis by simp
qed

lemma xor_twice: "map (\<lambda>b. (b XOR 0x5a) XOR (0x5a::int)) x = x"
  by (simp add: xor.assoc)

text \<open>
  C6. For a plaintext of at most 239 bytes and a cipher whose \<open>decrypt\<close> undoes its
  \<open>encrypt\<close>, \<open>_encrypt\<close> returns the encryption of the length byte, the plaintext
  and the zero bytes that fill the last block of 16 (at most 15 of them), and
  \<open>_decrypt\<close> of that result is the plaintext.
\<close>

theorem C6_encryption_roundtrip:
  assumes "length msg \<le> 239" and "\<forall>x. crypto_decrypt c (crypto_encrypt c x) = x"
  shows "\<exists>ct. encrypt c msg = Inr ct \<and> decrypt c ct = Inr msg
           \<and> ct = crypto_encrypt c (int (length msg) # msg @ replicate (15 - length msg mod 16) 0)
           \<and> (1 + length msg + (15 - length msg mod 16)) mod 16 = 0"
proof -
  have e: "encrypt c msg
           = Inr (crypto_encrypt c (int (length msg) # msg @ replicate (15 - length msg mod 16) 0))"
    using assms(1) unfolding encrypt_def Let_def padding_length by simp
  have d: "decrypt c (crypto_encrypt c (int (length msg) # msg @ replicate (15 - length msg mod 16) 0))
           = Inr msg"
    using assms(2) by (simp add: decrypt_def)
  from e d framed_length[of "length msg"] show ?thesis by simp
qed

theorem C6_witness:
  "length [104, 105 :: int] \<le> 239
   \<and> (\<exists>ct. encrypt xor_cipher [104, 105] = Inr ct \<and> decrypt xor_cipher ct = Inr [104, 105])"
proof -
  have inv: "\<forall>x. crypto_decrypt xor_cipher (crypto_encrypt xor_cipher x) = x"
    by (simp add: xor_cipher_def comp_def xor_twice)
  have len: "length [104, 105 :: int] \<le> 239" by simp
  from C6_encryption_roundtrip[OF len inv] len show ?thesis
    by blast
qed

subsection \<open>The channel-activity wait\<close>

text \<open>
  C3 (the code at an input where it departs from the claim). With a timeout of 1, the
  CAD-done interrupt arrives during the first sleep and reports activity: the handler
  records 1 in \<open>_cad\<close> and the mode leaves CAD, well before the timeout. \<open>wait_cad\<close>
  then returns \<open>None\<close>, not the recorded result.
\<close>

theorem C3_wait_cad_loses_result:
  "fst (wait_cad K0 (tick K0) [Some cad_detected] (dev\<lparr>cad_timeout := 1\<rparr>)) = None
   \<and> cad (snd (wait_cad K0 (tick K0) [Some cad_detected] (dev\<lparr>cad_timeout := 1\<rparr>))) = Some 1"
  by (simp add: wait_cad_def set_mode_defs dev_def tick_def handle_interrupt_def
      cad_detected_def spi_read_def call_default_mode_def Let_def)

subsection \<open>Sending from inside the handler\<close>

lemma wait_packet_sent_quiet:
  "wait_packet_sent K quiet es s = (es \<noteq> [] \<and> mode s \<noteq> Some (MODE_TX K), s)"
  by (induction es) (simp_all add: quiet_def Let_def)

lemma cad_loop_quiet:
  "cad_loop K quiet es s = (if mode s = Some (MODE_CAD K) then Some True else None, s)"
  by (induction es) (simp_all add: quiet_def)

lemma mode_set_mode [simp]:
  "mode (set_mode_idle K s) = Some (MODE_STDBY K)" "mode (set_mode_tx K s) = Some (MODE_TX K)"
  "mode (set_mode_rx K s) = Some (MODE_RXCONTINUOUS K)"
  "mode (set_mode_cad K s) = Some (MODE_CAD K)" "mode (set_mode_sleep K s) = Some (MODE_SLEEP K)"
  using enter_mode[of K Enter_idle s] enter_mode[of K Enter_tx s] enter_mode[of K Enter_rx s]
    enter_mode[of K Enter_cad s] enter_mode[of K Enter_sleep s] by simp_all

lemma mode_load_fifo [simp]: "mode (load_fifo K pl s) = mode s"
  by (simp add: load_fifo_def spi_write_def)

lemma wait_cad_quiet:
  "wait_cad K quiet es s =
     (if cad_timeout s = 0 then (Some False, s) else (Some True, set_mode_cad K s))"
  by (simp add: wait_cad_def cad_loop_quiet)

lemma prepare_data_cong: "crypto s' = crypto s \<Longrightarrow> prepare_data s' d = prepare_data s d"
  by (simp add: prepare_data_def)

lemma set_mode_idle_fields [simp]:
  "crypto (set_mode_idle K s) = crypto s" "this_address (set_mode_idle K s) = this_address s"
  by (simp_all add: set_mode_defs)

lemma send_quiet:
  "send K quiet env d t i f s =
     (if cad_timeout s \<noteq> 0 then (Inr False, set_mode_cad K s)
      else case prepare_data s d of
             Inl e \<Rightarrow> (Inl e, set_mode_idle K s)
           | Inr d1 \<Rightarrow>
               (Inr False,
                set_mode_tx K (load_fifo K ([t, this_address s, i, f] @ d1) (set_mode_idle K s))))"
  by (simp add: send_def wait_packet_sent_quiet wait_cad_quiet Let_def
        prepare_data_cong[of "set_mode_idle K s" s] split: sum.splits)

lemma send_ack_quiet:
  "send_ack K env es t i s =
     (if cad_timeout s \<noteq> 0 then (None, set_mode_cad K s)
      else case prepare_data s (PyBytes [33]) of
             Inl e \<Rightarrow> (Some e, set_mode_idle K s)
           | Inr d1 \<Rightarrow>
               (None,
                set_mode_tx K
                  (load_fifo K ([t, this_address s, i, FLAGS_ACK K] @ d1) (set_mode_idle K s))))"
  by (simp add: send_ack_def send_quiet wait_packet_sent_quiet split: sum.splits)

lemma bus_only_refl: "bus_only s s"
  unfolding bus_only_def by (rule exI[of _ "mode s"], rule exI[of _ "[]"]) simp

lemma bus_only_trans: "bus_only s s' \<Longrightarrow> bus_only s' s'' \<Longrightarrow> bus_only s s''"
  unfolding bus_only_def by (elim exE) (simp, blast)

lemma bus_only_spi_write: "bus_only s (spi_write r pl s)"
  unfolding bus_only_def spi_write_def
  by (rule exI[of _ "mode s"], rule exI[of _ "[(r OR 0x80) # pl]"]) simp

lemma bus_only_spi_read: "bus_only s (spi_read r n s)"
  unfolding bus_only_def spi_read_def
  by (rule exI[of _ "mode s"], rule exI[of _ "[r # replicate (nat n) 0]"]) simp

lemma bus_only_mode: "bus_only s s' \<Longrightarrow> bus_only s (s'\<lparr>mode := m\<rparr>)"
proof -
  assume "bus_only s s'"
  then obtain m0 ys where "s' = s\<lparr>mode := m0, xfers := xfers s @ ys\<rparr>"
    unfolding bus_only_def by blast
  then have "s'\<lparr>mode := m\<rparr> = s\<lparr>mode := m, xfers := xfers s @ ys\<rparr>" by simp
  then show ?thesis unfolding bus_only_def by blast
qed

lemma bus_only_enter: "bus_only s (enter K t s)"
  by (cases t)
     (auto simp: set_mode_sleep_def set_mode_idle_def set_mode_tx_def set_mode_rx_def
         set_mode_cad_def
       intro!: bus_only_refl bus_only_mode
       intro: bus_only_trans[OF bus_only_spi_write bus_only_spi_write] bus_only_spi_write)

lemma bus_only_set_mode:
  "bus_only s (set_mode_idle K s)" "bus_only s (set_mode_tx K s)"
  "bus_only s (set_mode_rx K s)" "bus_only s (set_mode_cad K s)"
  "bus_only s (set_mode_sleep K s)"
  using bus_only_enter[of s K Enter_idle] bus_only_enter[of s K Enter_tx]
    bus_only_enter[of s K Enter_rx] bus_only_enter[of s K Enter_cad]
    bus_only_enter[of s K Enter_sleep] by simp_all

lemma bus_only_load_fifo: "bus_only s (load_fifo K pl s)"
  unfolding load_fifo_def
  by (blast intro: bus_only_trans bus_only_spi_write)

lemma bus_only_sent:
  "bus_only s (set_mode_tx K (load_fifo K pl (set_mode_idle K s)))"
  by (rule bus_only_trans[OF bus_only_set_mode(1)],
      rule bus_only_trans[OF bus_only_load_fifo], rule bus_only_set_mode(2))

lemma bus_only_send_ack: "bus_only s (snd (send_ack K env es t i s))"
  unfolding send_ack_quiet
  by (simp add: bus_only_set_mode bus_only_sent split: sum.splits)

lemma bus_only_fields:
  assumes "bus_only s s'"
  shows "delivered s' = delivered s" "last_payload s' = last_payload s" "cad s' = cad s"
    "config s' = config s" "\<exists>ys. xfers s' = xfers s @ ys"
    "this_address s' = this_address s" "receive_all s' = receive_all s" "ack s' = ack s"
    "crypto s' = crypto s" "cad_timeout s' = cad_timeout s" "acks s' = acks s"
    "last_header_id s' = last_header_id s" "set_default_mode s' = set_default_mode s"
  using assms unfolding bus_only_def config_def by auto

subsection \<open>The received packet\<close>

lemma bus_only_acknowledge: "bus_only s (snd (acknowledge K h hto hfrom hid hflags s))"
  unfolding acknowledge_def
  by (simp add: bus_only_refl bus_only_send_ack split: sum.splits bool.splits)

lemma bus_only_acknowledgeD:
  "acknowledge K h hto hfrom hid hflags s = (e, s1) \<Longrightarrow> bus_only s s1"
  using bus_only_acknowledge[of s K h hto hfrom hid hflags] by simp

lemma bus_only_spi_readI: "bus_only s s' \<Longrightarrow> bus_only s (spi_read r n s')"
  by (erule bus_only_trans) (rule bus_only_spi_read)

lemma bus_only_spi_writeI: "bus_only s s' \<Longrightarrow> bus_only s (spi_write r pl s')"
  by (erule bus_only_trans) (rule bus_only_spi_write)

lemma bus_only_rx_drain: "bus_only s (rx_drain K h s)"
  unfolding rx_drain_def Let_def
  by (intro bus_only_spi_readI bus_only_spi_writeI bus_only_refl)

lemma publish_fields:
  "last_payload (publish K p s) = Some p"
  "delivered (publish K p s)
     = (if header_flags p AND FLAGS_ACK K = 0 then delivered s @ [p] else delivered s)"
  "mode (publish K p s) = Some (MODE_RXCONTINUOUS K)"
  "xfers (publish K p s) = xfers (set_mode_rx K s)"
  unfolding publish_def Let_def
  by (simp_all add: bus_only_fields[OF bus_only_set_mode(3)])

lemma xfers_publish: "\<exists>ys. xfers (publish K p s) = xfers s @ ys"
  by (simp add: publish_fields bus_only_fields[OF bus_only_set_mode(3)])

lemma rx_packet_filtered:
  "4 \<le> length (fifo h) \<Longrightarrow> this_address s \<noteq> fifo h ! 0
   \<Longrightarrow> BROADCAST_ADDRESS K \<noteq> fifo h ! 0 \<Longrightarrow> \<not> receive_all s
   \<Longrightarrow> rx_packet K h r sn s = (Return, s)"
  unfolding rx_packet_def by simp

lemma rx_packet_accepted:
  assumes "4 \<le> length (fifo h)"
    and "this_address s = fifo h ! 0 \<or> BROADCAST_ADDRESS K = fifo h ! 0 \<or> receive_all s"
  shows "rx_packet K h r sn s =
     (case maybe_decrypt s (rx_message h) of
        Inl e \<Rightarrow> (Raise e, s)
      | Inr msg' \<Rightarrow>
         (case acknowledge K h (fifo h ! 0) (fifo h ! 1) (fifo h ! 2) (fifo h ! 3) s of
            (Some e, s1) \<Rightarrow> (Raise e, s1)
          | (None, s1) \<Rightarrow>
              (Fallthrough,
               publish K \<lparr> message = msg', header_to = fifo h ! 0, header_from = fifo h ! 1,
                           header_id = fifo h ! 2, header_flags = fifo h ! 3,
                           rssi = r, snr = sn \<rparr> s1)))"
proof -
  have "\<not> length (fifo h) < 4" using assms(1) by simp
  moreover have "\<not> (this_address s \<noteq> fifo h ! 0 \<and> BROADCAST_ADDRESS K \<noteq> fifo h ! 0
                    \<and> \<not> receive_all s)"
    using assms(2) by blast
  ultimately show ?thesis
    unfolding rx_packet_def Let_def by (simp only: if_False)
qed

text \<open>The ways the body can end.\<close>

lemma rx_packet_cases:
  obtains
    (short) "length (fifo h) < 4" "rx_packet K h r sn s = (Raise IndexError, s)"
  | (filtered) "4 \<le> length (fifo h)" "this_address s \<noteq> fifo h ! 0"
      "BROADCAST_ADDRESS K \<noteq> fifo h ! 0" "\<not> receive_all s"
      "rx_packet K h r sn s = (Return, s)"
  | (undecryptable) e where "4 \<le> length (fifo h)"
      "this_address s = fifo h ! 0 \<or> BROADCAST_ADDRESS K = fifo h ! 0 \<or> receive_all s"
      "maybe_decrypt s (rx_message h) = Inl e" "rx_packet K h r sn s = (Raise e, s)"
  | (ack_failed) msg' e s1 where "4 \<le> length (fifo h)"
      "this_address s = fifo h ! 0 \<or> BROADCAST_ADDRESS K = fifo h ! 0 \<or> receive_all s"
      "maybe_decrypt s (rx_message h) = Inr msg'"
      "acknowledge K h (fifo h ! 0) (fifo h ! 1) (fifo h ! 2) (fifo h ! 3) s = (Some e, s1)"
      "rx_packet K h r sn s = (Raise e, s1)"
  | (published) msg' s1 where "4 \<le> length (fifo h)"
      "this_address s = fifo h ! 0 \<or> BROADCAST_ADDRESS K = fifo h ! 0 \<or> receive_all s"
      "maybe_decrypt s (rx_message h) = Inr msg'"
      "acknowledge K h (fifo h ! 0) (fifo h ! 1) (fifo h ! 2) (fifo h ! 3) s = (None, s1)"
      "rx_packet K h r sn s =
         (Fallthrough,
          publish K \<lparr> message = msg', header_to = fifo h ! 0, header_from = fifo h ! 1,
                      header_id = fifo h ! 2, header_flags = fifo h ! 3,
                      rssi = r, snr = sn \<rparr> s1)"
proof (cases "length (fifo h) < 4")
  case True
  then have "rx_packet K h r sn s = (Raise IndexError, s)"
    unfolding rx_packet_def by simp
  with True show ?thesis by (rule short)
next
  case False
  then have len: "4 \<le> length (fifo h)" by simp
  show ?thesis
  proof (cases "this_address s \<noteq> fifo h ! 0 \<and> BROADCAST_ADDRESS K \<noteq> fifo h ! 0
                \<and> \<not> receive_all s")
    case True
    then show ?thesis using len rx_packet_filtered[of h s K r sn] filtered by blast
  next
    case False
    then have acc: "this_address s = fifo h ! 0 \<or> BROADCAST_ADDRESS K = fifo h ! 0 \<or> receive_all s"
      by blast
    note eq = rx_packet_accepted[OF len acc, of r sn]
    show ?thesis
    proof (cases "maybe_decrypt s (rx_message h)")
      case (Inl e)
      then have "rx_packet K h r sn s = (Raise e, s)" unfolding eq by simp
      with len acc Inl show ?thesis by (rule undecryptable)
    next
      case (Inr msg')
      obtain o1 s1 where a:
        "acknowledge K h (fifo h ! 0) (fifo h ! 1) (fifo h ! 2) (fifo h ! 3) s = (o1, s1)"
        by force
      show ?thesis
      proof (cases o1)
        case None
        have "rx_packet K h r sn s =
           (Fallthrough,
            publish K \<lparr> message = msg', header_to = fifo h ! 0, header_from = fifo h ! 1,
                      header_id = fifo h ! 2, header_flags = fifo h ! 3,
                      rssi = r, snr = sn \<rparr> s1)"
          unfolding eq Inr a None by simp
        with len acc Inr a[unfolded None] show ?thesis by (rule published)
      next
        case (Some e)
        have "rx_packet K h r sn s = (Raise e, s1)"
          unfolding eq Inr a Some by simp
        with len acc Inr a[unfolded Some] show ?thesis by (rule ack_failed)
      qed
    qed
  qed
qed

subsection \<open>The interrupt handler\<close>

lemma bus_only_entry: "bus_only s (rx_drain K h (spi_read (REG_12_IRQ_FLAGS K) 1 s))"
  by (rule bus_only_trans[OF bus_only_spi_read bus_only_rx_drain])

lemma mode_entry: "mode (rx_drain K h (spi_read r n s)) = mode s"
  by (simp add: rx_drain_def spi_read_def spi_write_def Let_def)

lemma handle_interrupt_rx:
  assumes "mode s = Some (MODE_RXCONTINUOUS K)" "irq_flags h AND RX_DONE K \<noteq> 0"
    and "4 \<le> rx_nb_bytes h"
  shows "handle_interrupt K h s =
     (case rx_packet K h (- 137 + pkt_rssi h) (snr_value (pkt_snr h))
             (rx_drain K h (spi_read (REG_12_IRQ_FLAGS K) 1 s)) of
        (Fallthrough, s1) \<Rightarrow> (None, spi_write (REG_12_IRQ_FLAGS K) [0xff] s1)
      | (Return, s1) \<Rightarrow> (None, s1)
      | (Raise e, s1) \<Rightarrow> (Some e, s1))"
proof -
  have "mode (spi_read (REG_12_IRQ_FLAGS K) 1 s) = Some (MODE_RXCONTINUOUS K)"
    using assms(1) by (simp add: spi_read_def)
  then show ?thesis
    unfolding handle_interrupt_def rx_done_def Let_def
    using assms(2,3) by simp
qed

lemma maybe_decrypt_cong: "crypto s' = crypto s \<Longrightarrow> maybe_decrypt s' msg = maybe_decrypt s msg"
  by (simp add: maybe_decrypt_def)

text \<open>
  C10. A received packet of exactly 4 bytes that passes the address filter, with a cipher
  configured: the message is empty, its length 0 is a multiple of 16, so the handler hands
  the empty message to \<open>_decrypt\<close>. When the cipher returns the empty byte string, the
  handler ends with \<open>IndexError\<close>, the callback is not called and \<open>_last_payload\<close>
  is unchanged. When the cipher returns \<open>d # ds\<close> and the handler runs to its end, the
  published message is the first \<open>d\<close> bytes of \<open>ds\<close>: what the cipher returned
  decides the message, never the empty message as received.
\<close>

theorem C10_empty_message_is_decrypted:
  assumes rx: "mode s = Some (MODE_RXCONTINUOUS K)" "irq_flags h AND RX_DONE K \<noteq> 0"
    and len: "rx_nb_bytes h = 4" "length (fifo h) = 4"
    and acc: "this_address s = fifo h ! 0 \<or> BROADCAST_ADDRESS K = fifo h ! 0 \<or> receive_all s"
    and cr: "crypto s = Some c"
  shows "maybe_decrypt s (rx_message h) = decrypt c []
     \<and> (crypto_decrypt c [] = [] \<longrightarrow>
           fst (handle_interrupt K h s) = Some IndexError
           \<and> delivered (snd (handle_interrupt K h s)) = delivered s
           \<and> last_payload (snd (handle_interrupt K h s)) = last_payload s)
     \<and> (\<forall>d ds. crypto_decrypt c [] = d # ds \<and> fst (handle_interrupt K h s) = None \<longrightarrow>
           map_option message (last_payload (snd (handle_interrupt K h s)))
             = Some (take (nat d) ds))"
proof -
  define D where "D = rx_drain K h (spi_read (REG_12_IRQ_FLAGS K) 1 s)"
  have b: "bus_only s D" unfolding D_def by (rule bus_only_entry)
  note f = bus_only_fields[OF b]
  have msg: "rx_message h = []" using len(1) by (simp add: rx_message_def)
  have md: "maybe_decrypt s (rx_message h) = decrypt c []"
    by (simp add: maybe_decrypt_def cr msg)
  have mdD: "maybe_decrypt D (rx_message h) = decrypt c []"
    using md maybe_decrypt_cong[OF f(9)] by simp
  have len4: "4 \<le> length (fifo h)" using len(2) by simp
  have accD: "this_address D = fifo h ! 0 \<or> BROADCAST_ADDRESS K = fifo h ! 0 \<or> receive_all D"
    using acc f(6,7) by simp
  have H: "handle_interrupt K h s =
     (case rx_packet K h (- 137 + pkt_rssi h) (snr_value (pkt_snr h)) D of
        (Fallthrough, s1) \<Rightarrow> (None, spi_write (REG_12_IRQ_FLAGS K) [0xff] s1)
      | (Return, s1) \<Rightarrow> (None, s1)
      | (Raise e, s1) \<Rightarrow> (Some e, s1))"
    unfolding D_def using rx len(1) by (intro handle_interrupt_rx) simp_all
  have one: "fst (handle_interrupt K h s) = Some IndexError
           \<and> delivered (snd (handle_interrupt K h s)) = delivered s
           \<and> last_payload (snd (handle_interrupt K h s)) = last_payload s"
    if e: "crypto_decrypt c [] = []"
  proof -
    have "maybe_decrypt D (rx_message h) = Inl IndexError"
      using mdD e by (simp add: decrypt_def)
    then have "rx_packet K h (- 137 + pkt_rssi h) (snr_value (pkt_snr h)) D = (Raise IndexError, D)"
      using rx_packet_accepted[OF len4 accD] by simp
    then show ?thesis unfolding H by (simp add: f)
  qed
  have two: "map_option message (last_payload (snd (handle_interrupt K h s)))
             = Some (take (nat d) ds)"
    if e: "crypto_decrypt c [] = d # ds" and n: "fst (handle_interrupt K h s) = None" for d ds
  proof -
    have dec: "maybe_decrypt D (rx_message h) = Inr (take (nat d) ds)"
      using mdD e by (simp add: decrypt_def)
    show ?thesis
    proof (cases rule: rx_packet_cases[of h K "- 137 + pkt_rssi h" "snr_value (pkt_snr h)" D])
      case short
      then show ?thesis using len4 by simp
    next
      case filtered
      then show ?thesis using accD by blast
    next
      case (undecryptable e)
      then show ?thesis using dec by simp
    next
      case (ack_failed msg' e s1)
      then show ?thesis using n unfolding H by simp
    next
      case (published msg' s1)
      then have "msg' = take (nat d) ds" using dec by simp
      then show ?thesis unfolding H published(5)
        by (simp add: spi_write_def publish_fields)
    qed
  qed
  from md one two show ?thesis by blast
qed

text \<open>Evaluation at the concrete inputs.\<close>

lemmas handler_defs =
  handle_interrupt_def rx_done_def rx_drain_def rx_packet_def rx_message_def maybe_decrypt_def
  acknowledge_def ack_due_def publish_def call_default_mode_def spi_read_def snr_value_def
  decrypt_def Let_def spi_write_def set_mode_sleep_def set_mode_idle_def set_mode_tx_def
  set_mode_rx_def set_mode_cad_def

lemma dev_simps [simp]:
  "mode dev = Some 5" "cad dev = None" "receive_all dev = False" "acks dev = True"
  "ack dev = Some False" "this_address dev = 1" "last_header_id dev = 0"
  "last_payload dev = None" "crypto dev = None" "cad_timeout dev = 0"
  "set_default_mode dev = Default_rx" "xfers dev = []" "delivered dev = []"
  by (simp_all add: dev_def)

lemma packet_simps [simp]:
  "irq_flags (packet bs) = 0x40" "rx_nb_bytes (packet bs) = int (length bs)"
  "rx_current_addr (packet bs) = 0" "fifo (packet bs) = bs" "pkt_snr (packet bs) = 40"
  "pkt_rssi (packet bs) = 77" "ack_env (packet bs) = no_polls" "ack_sent (packet bs) = []"
  by (simp_all add: packet_def)

theorem C10_witness:
  "fst (handle_interrupt K0 (packet [1, 2, 9, 0]) (dev\<lparr>crypto := Some xor_cipher\<rparr>))
     = Some IndexError
   \<and> delivered (snd (handle_interrupt K0 (packet [1, 2, 9, 0]) (dev\<lparr>crypto := Some xor_cipher\<rparr>)))
     = []
   \<and> fst (handle_interrupt K0 (packet [1, 2, 9, 0]) (dev\<lparr>crypto := Some stub_cipher\<rparr>)) = None
   \<and> map_option message
        (last_payload (snd (handle_interrupt K0 (packet [1, 2, 9, 0])
                              (dev\<lparr>crypto := Some stub_cipher\<rparr>))))
     = Some [7, 8]"
proof -
  have n: "fst (handle_interrupt K0 (packet [1, 2, 9, 0]) (dev\<lparr>crypto := Some stub_cipher\<rparr>)) = None"
    by (simp add: handler_defs stub_cipher_def)
  have a: "crypto_decrypt xor_cipher [] = []" by (simp add: xor_cipher_def)
  have b: "crypto_decrypt stub_cipher [] = [2, 7, 8, 9]" by (simp add: stub_cipher_def)
  show ?thesis
    using C10_empty_message_is_decrypted[of "dev\<lparr>crypto := Some xor_cipher\<rparr>" K0
            "packet [1, 2, 9, 0]" xor_cipher]
          C10_empty_message_is_decrypted[of "dev\<lparr>crypto := Some stub_cipher\<rparr>" K0
            "packet [1, 2, 9, 0]" stub_cipher]
          n a b
    by simp
qed

lemma handle_interrupt_rx_short:
  assumes "mode s = Some (MODE_RXCONTINUOUS K)" "irq_flags h AND RX_DONE K \<noteq> 0"
    and "\<not> 4 \<le> rx_nb_bytes h"
  shows "handle_interrupt K h s
         = (None, spi_write (REG_12_IRQ_FLAGS K) [0xff]
                    (rx_drain K h (spi_read (REG_12_IRQ_FLAGS K) 1 s)))"
proof -
  have "mode (spi_read (REG_12_IRQ_FLAGS K) 1 s) = Some (MODE_RXCONTINUOUS K)"
    using assms(1) by (simp add: spi_read_def)
  then show ?thesis
    unfolding handle_interrupt_def rx_done_def Let_def
    using assms(2,3) by simp
qed

lemma bus_then_cad: "bus_only s s' \<Longrightarrow> \<exists>ys. xfers (call_default_mode K (s'\<lparr>cad := c\<rparr>)) = xfers s @ ys"
proof -
  assume b: "bus_only s s'"
  have "bus_only (s'\<lparr>cad := c\<rparr>) (call_default_mode K (s'\<lparr>cad := c\<rparr>))"
    unfolding call_default_mode_def
    by (simp add: bus_only_set_mode split: default_mode.splits)
  from bus_only_fields(5)[OF this] bus_only_fields(5)[OF b] show ?thesis by auto
qed

lemma inbox_call_default_mode:
  "delivered (call_default_mode K s) = delivered s"
  "last_payload (call_default_mode K s) = last_payload s"
  unfolding call_default_mode_def
  by (simp_all add: bus_only_fields[OF bus_only_set_mode(3)] bus_only_fields[OF bus_only_set_mode(1)]
        bus_only_fields[OF bus_only_set_mode(5)] split: default_mode.splits)

lemma handle_interrupt_other:
  assumes "\<not> (mode s = Some (MODE_RXCONTINUOUS K) \<and> irq_flags h AND RX_DONE K \<noteq> 0)"
  shows "\<exists>s1 ys. handle_interrupt K h s = (None, spi_write (REG_12_IRQ_FLAGS K) [0xff] s1)
           \<and> xfers s1 = xfers s @ ys \<and> delivered s1 = delivered s
           \<and> last_payload s1 = last_payload s"
proof -
  define s0 where "s0 = spi_read (REG_12_IRQ_FLAGS K) 1 s"
  have b: "bus_only s s0" unfolding s0_def by (rule bus_only_spi_read)
  have m: "mode s0 = mode s" unfolding s0_def by (simp add: spi_read_def)
  note f = bus_only_fields[OF b]
  have nrx: "\<not> (mode s0 = Some (MODE_RXCONTINUOUS K) \<and> irq_flags h AND RX_DONE K \<noteq> 0)"
    using assms m by simp
  define s1 where "s1 =
     (if mode s0 = Some (MODE_TX K) \<and> irq_flags h AND TX_DONE K \<noteq> 0
      then call_default_mode K s0
      else if mode s0 = Some (MODE_CAD K) \<and> irq_flags h AND CAD_DONE K \<noteq> 0
      then call_default_mode K (s0\<lparr>cad := Some (irq_flags h AND CAD_DETECTED K)\<rparr>)
      else s0)"
  have H: "handle_interrupt K h s = (None, spi_write (REG_12_IRQ_FLAGS K) [0xff] s1)"
    unfolding handle_interrupt_def Let_def s0_def[symmetric] s1_def
    by (subst if_not_P[OF nrx]) auto
  have x: "\<exists>ys. xfers s1 = xfers s @ ys"
    unfolding s1_def
    using bus_then_cad[OF b, of K "cad s0"] bus_then_cad[OF b, of K "Some (irq_flags h AND CAD_DETECTED K)"]
      f(5)
    by simp
  have d: "delivered s1 = delivered s" "last_payload s1 = last_payload s"
    unfolding s1_def by (simp_all add: inbox_call_default_mode f)
  from H x d show ?thesis by blast
qed

lemma xfers_entry:
  "xfers (rx_drain K h (spi_read (REG_12_IRQ_FLAGS K) 1 s))
   = xfers s @ [[REG_12_IRQ_FLAGS K, 0], [REG_13_RX_NB_BYTES K, 0],
                [REG_10_FIFO_RX_CURRENT_ADDR K, 0],
                [REG_0D_FIFO_ADDR_PTR K OR 0x80, rx_current_addr h],
                REG_00_FIFO K # replicate (nat (rx_nb_bytes h)) 0,
                [REG_12_IRQ_FLAGS K OR 0x80, 0xff],
                [REG_19_PKT_SNR_VALUE K, 0], [REG_1A_PKT_RSSI_VALUE K, 0]]"
  by (simp add: rx_drain_def spi_read_def spi_write_def Let_def)

lemma rx_packet_grows: "\<exists>ys. xfers (snd (rx_packet K h r sn s)) = xfers s @ ys"
proof (cases rule: rx_packet_cases[of h K r sn s])
  case short
  then show ?thesis by simp
next
  case filtered
  then show ?thesis by simp
next
  case (undecryptable e)
  then show ?thesis by simp
next
  case (ack_failed msg' e s1)
  from bus_only_fields(5)[OF bus_only_acknowledgeD[OF ack_failed(4)]]
  show ?thesis by (simp add: ack_failed(5))
next
  case (published msg' s1)
  from bus_only_fields(5)[OF bus_only_acknowledgeD[OF published(4)]]
  obtain ys where y: "xfers s1 = xfers s @ ys" by (elim exE)
  have "\<exists>zs. xfers (snd (rx_packet K h r sn s)) = xfers s1 @ zs"
    unfolding published(5) snd_conv by (rule xfers_publish)
  then obtain zs where z: "xfers (snd (rx_packet K h r sn s)) = xfers s1 @ zs"
    by (elim exE)
  have "xfers (snd (rx_packet K h r sn s)) = xfers s @ (ys @ zs)" by (simp add: y z)
  then show ?thesis by (rule exI)
qed

lemma ack_due_other:
  "hto \<noteq> this_address s \<Longrightarrow> acknowledge K h hto hfrom hid hflags s = (None, s)"
  by (simp add: acknowledge_def ack_due_def)

text \<open>
  C7 (as amended). A received packet of at least 4 bytes whose destination is neither
  this device's address nor the broadcast address. With \<open>receive_all\<close> off the callback
  is not called and \<open>_last_payload\<close> is unchanged. With \<open>receive_all\<close> on, and
  the message passing the decryption step, the callback is called with the packet when
  its ACK flag is clear, and is not called when its ACK flag is set; it is not called
  either when the decryption step raises.
\<close>

theorem C7_address_filter:
  assumes rx: "mode s = Some (MODE_RXCONTINUOUS K)" "irq_flags h AND RX_DONE K \<noteq> 0"
    and len: "4 \<le> rx_nb_bytes h" "4 \<le> length (fifo h)"
    and other: "this_address s \<noteq> fifo h ! 0" "BROADCAST_ADDRESS K \<noteq> fifo h ! 0"
  shows "(\<not> receive_all s \<longrightarrow>
            delivered (snd (handle_interrupt K h s)) = delivered s
            \<and> last_payload (snd (handle_interrupt K h s)) = last_payload s)
     \<and> (receive_all s \<longrightarrow>
          (\<forall>msg'. maybe_decrypt s (rx_message h) = Inr msg' \<longrightarrow>
             delivered (snd (handle_interrupt K h s))
             = (if fifo h ! 3 AND FLAGS_ACK K = 0
                then delivered s @ [\<lparr> message = msg', header_to = fifo h ! 0,
                                        header_from = fifo h ! 1, header_id = fifo h ! 2,
                                        header_flags = fifo h ! 3, rssi = - 137 + pkt_rssi h,
                                        snr = snr_value (pkt_snr h) \<rparr>]
                else delivered s))
          \<and> (\<forall>e. maybe_decrypt s (rx_message h) = Inl e \<longrightarrow>
                 delivered (snd (handle_interrupt K h s)) = delivered s))"
proof -
  define D where "D = rx_drain K h (spi_read (REG_12_IRQ_FLAGS K) 1 s)"
  have b: "bus_only s D" unfolding D_def by (rule bus_only_entry)
  note f = bus_only_fields[OF b]
  note H = handle_interrupt_rx[OF rx len(1), folded D_def]
  have one: "delivered (snd (handle_interrupt K h s)) = delivered s
            \<and> last_payload (snd (handle_interrupt K h s)) = last_payload s"
    if "\<not> receive_all s"
  proof -
    have "rx_packet K h (- 137 + pkt_rssi h) (snr_value (pkt_snr h)) D = (Return, D)"
      using that other len(2) f(6,7) by (intro rx_packet_filtered) simp_all
    then show ?thesis unfolding H by (simp add: f)
  qed
  have eq: "rx_packet K h (- 137 + pkt_rssi h) (snr_value (pkt_snr h)) D =
     (case maybe_decrypt s (rx_message h) of
        Inl e \<Rightarrow> (Raise e, D)
      | Inr msg' \<Rightarrow>
          (Fallthrough,
           publish K \<lparr> message = msg', header_to = fifo h ! 0, header_from = fifo h ! 1,
                       header_id = fifo h ! 2, header_flags = fifo h ! 3,
                       rssi = - 137 + pkt_rssi h, snr = snr_value (pkt_snr h) \<rparr> D))"
    if ra: "receive_all s"
  proof -
    have acc: "this_address D = fifo h ! 0 \<or> BROADCAST_ADDRESS K = fifo h ! 0 \<or> receive_all D"
      using ra f(7) by simp
    have a: "acknowledge K h (fifo h ! 0) (fifo h ! 1) (fifo h ! 2) (fifo h ! 3) D = (None, D)"
      using other(1) f(6) by (intro ack_due_other) simp
    show ?thesis
      unfolding rx_packet_accepted[OF len(2) acc] a maybe_decrypt_cong[OF f(9)]
      by (cases "maybe_decrypt s (rx_message h)") simp_all
  qed
  have two: "delivered (snd (handle_interrupt K h s))
             = (if fifo h ! 3 AND FLAGS_ACK K = 0
                then delivered s @ [\<lparr> message = msg', header_to = fifo h ! 0,
                                        header_from = fifo h ! 1, header_id = fifo h ! 2,
                                        header_flags = fifo h ! 3, rssi = - 137 + pkt_rssi h,
                                        snr = snr_value (pkt_snr h) \<rparr>]
                else delivered s)"
    if "receive_all s" "maybe_decrypt s (rx_message h) = Inr msg'" for msg'
    unfolding H eq[OF that(1)] that(2)
    by (simp add: spi_write_def publish_fields f)
  have three: "delivered (snd (handle_interrupt K h s)) = delivered s"
    if "receive_all s" "maybe_decrypt s (rx_message h) = Inl e" for e
    unfolding H eq[OF that(1)] that(2)
    by (simp add: f)
  from one two three show ?thesis by blast
qed


theorem C7_witness:
  "delivered (snd (handle_interrupt K0 (packet [7, 3, 0, 0, 104, 105]) dev)) = []
   \<and> map message
        (delivered (snd (handle_interrupt K0 (packet [7, 3, 0, 0, 104, 105])
                           (dev\<lparr>receive_all := True\<rparr>))))
     = [[104, 105]]"
  using C7_address_filter[of dev K0 "packet [7, 3, 0, 0, 104, 105]"]
        C7_address_filter[of "dev\<lparr>receive_all := True\<rparr>" K0 "packet [7, 3, 0, 0, 104, 105]"]
  by (simp add: maybe_decrypt_def rx_message_def)

text \<open>
  C7 as stated fails: with \<open>receive_all\<close> on, a packet for device 7 that carries the
  ACK flag is not handed to the callback.
\<close>

theorem C7_ack_not_delivered:
  "receive_all (dev\<lparr>receive_all := True\<rparr>)
   \<and> delivered (snd (handle_interrupt K0 (packet [7, 3, 0, 0x40]) (dev\<lparr>receive_all := True\<rparr>)))
     = []"
  by (simp add: handler_defs)

lemma handle_interrupt_flags:
  "(\<exists>ys zs. xfers (snd (handle_interrupt K h s))
             = xfers s @ ys @ [REG_12_IRQ_FLAGS K OR 0x80, 0xff] # zs)
   \<and> (fst (handle_interrupt K h s) = None \<and> \<not> address_filtered K h s \<longrightarrow>
        (\<exists>ys. xfers (snd (handle_interrupt K h s))
              = xfers s @ ys @ [[REG_12_IRQ_FLAGS K OR 0x80, 0xff]]))"
proof (cases "mode s = Some (MODE_RXCONTINUOUS K) \<and> irq_flags h AND RX_DONE K \<noteq> 0")
  case False
  from handle_interrupt_other[OF False] obtain s1 ys where
    H: "handle_interrupt K h s = (None, spi_write (REG_12_IRQ_FLAGS K) [0xff] s1)"
    and x: "xfers s1 = xfers s @ ys"
    by blast
  have e: "xfers (snd (handle_interrupt K h s)) = xfers s @ ys @ [[REG_12_IRQ_FLAGS K OR 0x80, 0xff]]"
    unfolding H by (simp add: spi_write_def x)
  then have "\<exists>ys zs. xfers (snd (handle_interrupt K h s))
             = xfers s @ ys @ [REG_12_IRQ_FLAGS K OR 0x80, 0xff] # zs"
    by blast
  with e show ?thesis by blast
next
  case True
  then have rx: "mode s = Some (MODE_RXCONTINUOUS K)" "irq_flags h AND RX_DONE K \<noteq> 0"
    by simp_all
  define D where "D = rx_drain K h (spi_read (REG_12_IRQ_FLAGS K) 1 s)"
  have b: "bus_only s D" unfolding D_def by (rule bus_only_entry)
  note f = bus_only_fields[OF b]
  define pre where "pre = [[REG_12_IRQ_FLAGS K, 0], [REG_13_RX_NB_BYTES K, 0],
                [REG_10_FIFO_RX_CURRENT_ADDR K, 0],
                [REG_0D_FIFO_ADDR_PTR K OR 0x80, rx_current_addr h],
                REG_00_FIFO K # replicate (nat (rx_nb_bytes h)) 0]"
  have xD: "xfers D = xfers s @ pre @ [REG_12_IRQ_FLAGS K OR 0x80, 0xff]
                        # [[REG_19_PKT_SNR_VALUE K, 0], [REG_1A_PKT_RSSI_VALUE K, 0]]"
    unfolding D_def pre_def xfers_entry by simp
  show ?thesis
  proof (cases "4 \<le> rx_nb_bytes h")
    case False
    have H: "handle_interrupt K h s = (None, spi_write (REG_12_IRQ_FLAGS K) [0xff] D)"
      unfolding D_def by (rule handle_interrupt_rx_short[OF rx False])
    have e: "xfers (snd (handle_interrupt K h s))
             = xfers s @ (pre @ [REG_12_IRQ_FLAGS K OR 0x80, 0xff]
                        # [[REG_19_PKT_SNR_VALUE K, 0], [REG_1A_PKT_RSSI_VALUE K, 0]])
                 @ [[REG_12_IRQ_FLAGS K OR 0x80, 0xff]]"
      unfolding H by (simp add: spi_write_def xD)
    have "xfers (snd (handle_interrupt K h s))
             = xfers s @ pre @ [REG_12_IRQ_FLAGS K OR 0x80, 0xff]
                 # [[REG_19_PKT_SNR_VALUE K, 0], [REG_1A_PKT_RSSI_VALUE K, 0],
                    [REG_12_IRQ_FLAGS K OR 0x80, 0xff]]"
      unfolding e by simp
    with e show ?thesis by blast
  next
    case len: True
    note H = handle_interrupt_rx[OF rx len, folded D_def]
    obtain fl s1 where R: "rx_packet K h (- 137 + pkt_rssi h) (snr_value (pkt_snr h)) D = (fl, s1)"
      by force
    from rx_packet_grows[of K h "- 137 + pkt_rssi h" "snr_value (pkt_snr h)" D]
    obtain ws where w: "xfers s1 = xfers D @ ws" unfolding R by auto
    have Hx: "\<exists>vs. xfers (snd (handle_interrupt K h s)) = xfers s1 @ vs"
      unfolding H R by (cases fl) (simp_all add: spi_write_def)
    then obtain vs where v: "xfers (snd (handle_interrupt K h s)) = xfers s1 @ vs" by blast
    have a: "xfers (snd (handle_interrupt K h s))
             = xfers s @ pre @ [REG_12_IRQ_FLAGS K OR 0x80, 0xff]
                 # ([[REG_19_PKT_SNR_VALUE K, 0], [REG_1A_PKT_RSSI_VALUE K, 0]] @ ws @ vs)"
      unfolding v w xD by simp
    have c: "\<exists>ys. xfers (snd (handle_interrupt K h s))
              = xfers s @ ys @ [[REG_12_IRQ_FLAGS K OR 0x80, 0xff]]"
      if n: "fst (handle_interrupt K h s) = None" and nf: "\<not> address_filtered K h s"
    proof (cases fl)
      case Fallthrough
      have "xfers (snd (handle_interrupt K h s))
            = xfers s @ (pre @ [REG_12_IRQ_FLAGS K OR 0x80, 0xff]
                 # [[REG_19_PKT_SNR_VALUE K, 0], [REG_1A_PKT_RSSI_VALUE K, 0]] @ ws)
                @ [[REG_12_IRQ_FLAGS K OR 0x80, 0xff]]"
        unfolding H R Fallthrough by (simp add: spi_write_def w xD)
      then show ?thesis by blast
    next
      case Return
      have "4 \<le> length (fifo h) \<and> this_address D \<noteq> fifo h ! 0
            \<and> BROADCAST_ADDRESS K \<noteq> fifo h ! 0 \<and> \<not> receive_all D"
        using R[unfolded Return]
        by (cases rule: rx_packet_cases[of h K "- 137 + pkt_rssi h" "snr_value (pkt_snr h)" D])
           simp_all
      then have "address_filtered K h s"
        unfolding address_filtered_def using rx len f(6,7) by simp
      with nf show ?thesis by simp
    next
      case (Raise e)
      then show ?thesis using n unfolding H R by simp
    qed
    from a c show ?thesis by blast
  qed
qed

lemma handle_interrupt_grows: "\<exists>ys. xfers (snd (handle_interrupt K h s)) = xfers s @ ys"
  using handle_interrupt_flags[of K h s] by blast

text \<open>
  C8 (as amended). Every invocation of the handler writes \<open>0xff\<close> to the interrupt
  flags register at least once, on every path, including those that end by an exception.
  An invocation that ends without an exception ends with that write, except on the
  early return of the address filter, where the flags were cleared when the buffer was
  drained and the handler returns without the final write.
\<close>

theorem C8_flags_cleared:
  "(\<exists>ys zs. xfers (snd (handle_interrupt K h s))
             = xfers s @ ys @ [REG_12_IRQ_FLAGS K OR 0x80, 0xff] # zs)
   \<and> (fst (handle_interrupt K h s) = None \<and> \<not> address_filtered K h s \<longrightarrow>
        (\<exists>ys. xfers (snd (handle_interrupt K h s))
              = xfers s @ ys @ [[REG_12_IRQ_FLAGS K OR 0x80, 0xff]]))"
  by (rule handle_interrupt_flags)

theorem C8_witness:
  "fst (handle_interrupt K0 (packet [1, 2, 9, 0]) dev) = None
   \<and> \<not> address_filtered K0 (packet [1, 2, 9, 0]) dev
   \<and> (\<exists>ys. xfers (snd (handle_interrupt K0 (packet [1, 2, 9, 0]) dev)) = ys @ [[0x92, 0xff]])"
proof -
  have n: "fst (handle_interrupt K0 (packet [1, 2, 9, 0]) dev) = None"
    by (simp add: handler_defs)
  have nf: "\<not> address_filtered K0 (packet [1, 2, 9, 0]) dev"
    by (simp add: address_filtered_def)
  from C8_flags_cleared[of K0 "packet [1, 2, 9, 0]" dev] n nf show ?thesis
    by simp
qed

text \<open>
  C8 as stated fails: a packet for device 7 arrives at device 1, which does not receive
  all. The handler returns at the address filter; the last bus transaction is the read of
  the RSSI register, not the clearing of the flags.
\<close>

theorem C8_filtered_packet_no_final_clear:
  "fst (handle_interrupt K0 (packet [7, 3, 0, 0]) dev) = None
   \<and> xfers (snd (handle_interrupt K0 (packet [7, 3, 0, 0]) dev))
     = [[0x12, 0], [0x13, 0], [0x10, 0], [0x8d, 0], [0x00, 0, 0, 0, 0], [0x92, 0xff],
        [0x19, 0], [0x1a, 0]]"
  by (simp add: handler_defs eval_nat_numeral)

lemma prepare_data_bang:
  "prepare_data s (PyBytes [33])
   = Inr (case crypto s of None \<Rightarrow> [33]
                         | Some c \<Rightarrow> crypto_encrypt c (1 # 33 # replicate 14 0))"
proof (cases "crypto s")
  case None
  then show ?thesis by (simp add: prepare_data_def)
next
  case (Some c)
  have "encrypt c [33] = Inr (crypto_encrypt c (1 # 33 # replicate 14 0))"
    using padding_length[of 1] unfolding encrypt_def Let_def by simp
  then show ?thesis using Some by (simp add: prepare_data_def to_bytes_def)
qed

subsection \<open>The acknowledgment\<close>

text \<open>
  What the handler does on a device whose attribute \<open>_ack\<close> exists and is false (the
  caller has set it on the object), with no channel-activity check, for a packet that asks
  for an acknowledgment: it drains the buffer, enters idle mode, loads the acknowledgment,
  starts the transmission, returns to receive mode and clears the flags. The
  acknowledgment carries the one-byte payload \<open>!\<close> (33), encrypted when a cipher is
  configured.
\<close>

lemma handle_interrupt_acknowledges:
  assumes rx: "mode s = Some (MODE_RXCONTINUOUS K)" "irq_flags h AND RX_DONE K \<noteq> 0"
    and len: "4 \<le> rx_nb_bytes h" "4 \<le> length (fifo h)"
    and to_me: "fifo h ! 0 = this_address s"
    and req: "fifo h ! 3 AND FLAGS_REQ_ACK K \<noteq> 0"
    and not_ack: "fifo h ! 3 AND FLAGS_ACK K = 0"
    and auto: "ack s = Some False"
    and no_cad: "cad_timeout s = 0"
    and dec: "maybe_decrypt s (rx_message h) = Inr msg'"
    and dist: "MODE_STDBY K \<noteq> MODE_RXCONTINUOUS K" "MODE_TX K \<noteq> MODE_STDBY K"
        "MODE_RXCONTINUOUS K \<noteq> MODE_TX K"
    and fr: "frame = [fifo h ! 1, this_address s, fifo h ! 2, FLAGS_ACK K]
                      @ (case crypto s of None \<Rightarrow> [33]
                           | Some c \<Rightarrow> crypto_encrypt c (1 # 33 # replicate 14 0))"
  shows "fst (handle_interrupt K h s) = None
     \<and> xfers (snd (handle_interrupt K h s))
       = xfers s @ [[REG_12_IRQ_FLAGS K, 0], [REG_13_RX_NB_BYTES K, 0],
                    [REG_10_FIFO_RX_CURRENT_ADDR K, 0],
                    [REG_0D_FIFO_ADDR_PTR K OR 0x80, rx_current_addr h],
                    REG_00_FIFO K # replicate (nat (rx_nb_bytes h)) 0,
                    [REG_12_IRQ_FLAGS K OR 0x80, 0xff],
                    [REG_19_PKT_SNR_VALUE K, 0], [REG_1A_PKT_RSSI_VALUE K, 0],
                    [REG_01_OP_MODE K OR 0x80, MODE_STDBY K],
                    [REG_0D_FIFO_ADDR_PTR K OR 0x80, 0],
                    (REG_00_FIFO K OR 0x80) # frame,
                    [REG_22_PAYLOAD_LENGTH K OR 0x80, int (length frame)],
                    [REG_01_OP_MODE K OR 0x80, MODE_TX K],
                    [REG_40_DIO_MAPPING1 K OR 0x80, 0x40],
                    [REG_01_OP_MODE K OR 0x80, MODE_RXCONTINUOUS K],
                    [REG_40_DIO_MAPPING1 K OR 0x80, 0x00],
                    [REG_12_IRQ_FLAGS K OR 0x80, 0xff]]"
proof -
  define D where "D = rx_drain K h (spi_read (REG_12_IRQ_FLAGS K) 1 s)"
  have b: "bus_only s D" unfolding D_def by (rule bus_only_entry)
  note f = bus_only_fields[OF b]
  have mD: "mode D = Some (MODE_RXCONTINUOUS K)" unfolding D_def mode_entry by (rule rx(1))
  note H = handle_interrupt_rx[OF rx len(1), folded D_def]
  define A where "A = set_mode_tx K (load_fifo K frame (set_mode_idle K D))"
  have due: "ack_due K (fifo h ! 0) (fifo h ! 3) D = Inr True"
    using to_me req not_ack auto f(6,8) by (simp add: ack_due_def)
  have pd: "prepare_data D (PyBytes [33])
            = Inr (case crypto s of None \<Rightarrow> [33]
                     | Some c \<Rightarrow> crypto_encrypt c (1 # 33 # replicate 14 0))"
    unfolding prepare_data_bang f(9) ..
  have a: "acknowledge K h (fifo h ! 0) (fifo h ! 1) (fifo h ! 2) (fifo h ! 3) D = (None, A)"
    unfolding acknowledge_def due send_ack_quiet pd A_def fr
    using no_cad f(6,10) by simp
  have acc: "this_address D = fifo h ! 0 \<or> BROADCAST_ADDRESS K = fifo h ! 0 \<or> receive_all D"
    using to_me f(6) by simp
  have R: "rx_packet K h (- 137 + pkt_rssi h) (snr_value (pkt_snr h)) D =
          (Fallthrough,
           publish K \<lparr> message = msg', header_to = fifo h ! 0, header_from = fifo h ! 1,
                       header_id = fifo h ! 2, header_flags = fifo h ! 3,
                       rssi = - 137 + pkt_rssi h, snr = snr_value (pkt_snr h) \<rparr> A)"
    unfolding rx_packet_accepted[OF len(2) acc] a maybe_decrypt_cong[OF f(9)] dec
    by simp
  have xA: "xfers A = xfers D @ [[REG_01_OP_MODE K OR 0x80, MODE_STDBY K],
                    [REG_0D_FIFO_ADDR_PTR K OR 0x80, 0],
                    (REG_00_FIFO K OR 0x80) # frame,
                    [REG_22_PAYLOAD_LENGTH K OR 0x80, int (length frame)],
                    [REG_01_OP_MODE K OR 0x80, MODE_TX K],
                    [REG_40_DIO_MAPPING1 K OR 0x80, 0x40]]"
    unfolding A_def using mD dist
    by (simp add: set_mode_idle_def set_mode_tx_def load_fifo_def spi_write_def)
  have mA: "mode A = Some (MODE_TX K)" unfolding A_def by simp
  have xR: "xfers (set_mode_rx K A) = xfers A @ [[REG_01_OP_MODE K OR 0x80, MODE_RXCONTINUOUS K],
                    [REG_40_DIO_MAPPING1 K OR 0x80, 0x00]]"
    using mA dist by (simp add: set_mode_rx_def spi_write_def)
  show ?thesis
    unfolding H R
    by (simp add: spi_write_def publish_fields xR xA D_def xfers_entry)
qed

text \<open>Device 2 asks such a device for an acknowledgment of its packet 9.\<close>

lemma acknowledgment_example:
  "xfers (snd (handle_interrupt K0 (packet [1, 2, 9, 0x80]) dev))
     = [[0x12, 0], [0x13, 0], [0x10, 0], [0x8d, 0], [0x00, 0, 0, 0, 0], [0x92, 0xff],
        [0x19, 0], [0x1a, 0], [0x81, 0x01], [0x8d, 0], [0x80, 2, 1, 9, 0x40, 33],
        [0xa2, 5], [0x81, 0x03], [0xc0, 0x40], [0x81, 0x05], [0xc0, 0x00], [0x92, 0xff]]"
  by (simp add: handler_defs send_ack_quiet prepare_data_def load_fifo_def eval_nat_numeral)

text \<open>
  The constructor never assigns \<open>_ack\<close> (line 55 assigns \<open>_acks\<close>). On a device as
  the class builds it, a packet addressed to it with the ACK-request flag set and the ACK
  flag clear makes line 333 raise \<open>AttributeError\<close>: the handler ends after draining
  the buffer, without loading or transmitting anything, without a call of the callback and
  without publishing the packet.
\<close>

lemma handle_interrupt_without_ack_attribute:
  assumes rx: "mode s = Some (MODE_RXCONTINUOUS K)" "irq_flags h AND RX_DONE K \<noteq> 0"
    and len: "4 \<le> rx_nb_bytes h" "4 \<le> length (fifo h)"
    and to_me: "fifo h ! 0 = this_address s"
    and req: "fifo h ! 3 AND FLAGS_REQ_ACK K \<noteq> 0"
    and not_ack: "fifo h ! 3 AND FLAGS_ACK K = 0"
    and absent: "ack s = None"
    and dec: "maybe_decrypt s (rx_message h) = Inr msg'"
  shows "fst (handle_interrupt K h s) = Some AttributeError
     \<and> xfers (snd (handle_interrupt K h s))
       = xfers s @ [[REG_12_IRQ_FLAGS K, 0], [REG_13_RX_NB_BYTES K, 0],
                    [REG_10_FIFO_RX_CURRENT_ADDR K, 0],
                    [REG_0D_FIFO_ADDR_PTR K OR 0x80, rx_current_addr h],
                    REG_00_FIFO K # replicate (nat (rx_nb_bytes h)) 0,
                    [REG_12_IRQ_FLAGS K OR 0x80, 0xff],
                    [REG_19_PKT_SNR_VALUE K, 0], [REG_1A_PKT_RSSI_VALUE K, 0]]
     \<and> mode (snd (handle_interrupt K h s)) = mode s
     \<and> delivered (snd (handle_interrupt K h s)) = delivered s
     \<and> last_payload (snd (handle_interrupt K h s)) = last_payload s"
proof -
  define D where "D = rx_drain K h (spi_read (REG_12_IRQ_FLAGS K) 1 s)"
  have b: "bus_only s D" unfolding D_def by (rule bus_only_entry)
  note f = bus_only_fields[OF b]
  have mD: "mode D = mode s" unfolding D_def by (rule mode_entry)
  note H = handle_interrupt_rx[OF rx len(1), folded D_def]
  have due: "ack_due K (fifo h ! 0) (fifo h ! 3) D = Inl AttributeError"
    using to_me req not_ack absent f(6,8) by (simp add: ack_due_def)
  have a: "acknowledge K h (fifo h ! 0) (fifo h ! 1) (fifo h ! 2) (fifo h ! 3) D
           = (Some AttributeError, D)"
    unfolding acknowledge_def due by simp
  have acc: "this_address D = fifo h ! 0 \<or> BROADCAST_ADDRESS K = fifo h ! 0 \<or> receive_all D"
    using to_me f(6) by simp
  have R: "rx_packet K h (- 137 + pkt_rssi h) (snr_value (pkt_snr h)) D
           = (Raise AttributeError, D)"
    unfolding rx_packet_accepted[OF len(2) acc] a maybe_decrypt_cong[OF f(9)] dec
    by simp
  show ?thesis
    unfolding H R by (simp add: f mD) (simp add: D_def xfers_entry)
qed

text \<open>
  C1 (the code at an input where it departs from the claim). Device 1, as the class builds
  it (no attribute \<open>_ack\<close>), receives from device 2 the packet 9 addressed to it, with
  the ACK-request flag set and the ACK flag clear. The handler ends with
  \<open>AttributeError\<close>: the last bus transaction is the read of the RSSI register, no
  acknowledgment is loaded or transmitted, the mode is still receive, the callback is not
  called and \<open>_last_payload\<close> is unchanged.
\<close>

theorem C1_handler_raises_AttributeError:
  "fst (handle_interrupt K0 (packet [1, 2, 9, 0x80]) (dev\<lparr>ack := None\<rparr>)) = Some AttributeError
   \<and> xfers (snd (handle_interrupt K0 (packet [1, 2, 9, 0x80]) (dev\<lparr>ack := None\<rparr>)))
     = [[0x12, 0], [0x13, 0], [0x10, 0], [0x8d, 0], [0x00, 0, 0, 0, 0], [0x92, 0xff],
        [0x19, 0], [0x1a, 0]]
   \<and> mode (snd (handle_interrupt K0 (packet [1, 2, 9, 0x80]) (dev\<lparr>ack := None\<rparr>))) = Some 0x05
   \<and> delivered (snd (handle_interrupt K0 (packet [1, 2, 9, 0x80]) (dev\<lparr>ack := None\<rparr>))) = []
   \<and> last_payload (snd (handle_interrupt K0 (packet [1, 2, 9, 0x80]) (dev\<lparr>ack := None\<rparr>)))
     = None"
  by (simp add: handler_defs eval_nat_numeral)

subsection \<open>Sending\<close>

lemma tick_grows: "\<exists>ys. xfers (tick K e s) = xfers s @ ys"
  by (cases e) (simp_all add: tick_def handle_interrupt_grows)

lemma wait_packet_sent_grows:
  "\<exists>ys. xfers (snd (wait_packet_sent K (tick K) es s)) = xfers s @ ys"
proof (induction es arbitrary: s)
  case Nil
  then show ?case by simp
next
  case (Cons e es)
  from tick_grows[of K e s] obtain ys where y: "xfers (tick K e s) = xfers s @ ys" by blast
  from Cons[of "tick K e s"] obtain zs where
    z: "xfers (snd (wait_packet_sent K (tick K) es (tick K e s))) = xfers s @ (ys @ zs)"
    unfolding y by auto
  show ?case
    by (simp add: Let_def y) (use z in blast)
qed

lemma configD:
  assumes "config s' = config s"
  shows "this_address s' = this_address s" "crypto s' = crypto s" "acks s' = acks s"
    "last_header_id s' = last_header_id s" "cad_timeout s' = cad_timeout s"
  using assms by (simp_all add: config_def)

text \<open>
  C4 (as amended). \<open>send\<close> has no length check. Whenever the channel-activity wait does
  not report a busy channel and the preparation of the data does not raise, whatever the
  length of the frame (the 4-byte header and the data, encrypted when a cipher is set),
  \<open>send\<close> sets the buffer pointer to 0, writes the whole frame to the buffer, writes
  its length to the payload length register, enters transmit mode, and returns a boolean
  (whether the mode left transmit in time).
\<close>

theorem C4_send_has_no_length_check:
  assumes cad: "fst (wait_cad K (tick K) (ev_cad env)
                       (snd (wait_packet_sent K (tick K) (ev_sent1 env) s))) \<noteq> Some True"
    and prep: "prepare_data s d = Inr data1"
    and dist: "MODE_TX K \<noteq> MODE_STDBY K"
    and fr: "frame = [t, this_address s, i, f] @ data1"
  shows "(\<exists>sent. fst (send K (tick K) env d t i f s) = Inr sent)
     \<and> (\<exists>pre post. xfers (snd (send K (tick K) env d t i f s))
           = pre @ [[REG_0D_FIFO_ADDR_PTR K OR 0x80, 0],
                    (REG_00_FIFO K OR 0x80) # frame,
                    [REG_22_PAYLOAD_LENGTH K OR 0x80, int (length frame)],
                    [REG_01_OP_MODE K OR 0x80, MODE_TX K],
                    [REG_40_DIO_MAPPING1 K OR 0x80, 0x40]] @ post)"
proof -
  define s1 where "s1 = snd (wait_packet_sent K (tick K) (ev_sent1 env) s)"
  obtain c s2 where w: "wait_cad K (tick K) (ev_cad env) s1 = (c, s2)" by force
  have c: "c \<noteq> Some True" using cad w unfolding s1_def by simp
  define s3 where "s3 = set_mode_idle K s2"
  have c1: "config s1 = config s"
    unfolding s1_def by (rule config_wait_packet_sent) (rule config_tick)
  have c2: "config s2 = config s1"
    using config_wait_cad[of "tick K" K "ev_cad env" s1, OF config_tick] w by simp
  have c3: "config s3 = config s"
    unfolding s3_def by (simp add: config_set_mode c1 c2)
  have p3: "prepare_data s3 d = Inr data1"
    using prep prepare_data_cong[OF configD(2)[OF c3]] by simp
  define s5 where "s5 = set_mode_tx K (load_fifo K frame s3)"
  have x5: "xfers s5 = xfers s3 @ [[REG_0D_FIFO_ADDR_PTR K OR 0x80, 0],
                    (REG_00_FIFO K OR 0x80) # frame,
                    [REG_22_PAYLOAD_LENGTH K OR 0x80, int (length frame)],
                    [REG_01_OP_MODE K OR 0x80, MODE_TX K],
                    [REG_40_DIO_MAPPING1 K OR 0x80, 0x40]]"
    unfolding s5_def s3_def using dist
    by (simp add: set_mode_tx_def load_fifo_def spi_write_def)
  obtain sent s6 where w2: "wait_packet_sent K (tick K) (ev_sent2 env) s5 = (sent, s6)" by force
  from wait_packet_sent_grows[of K "ev_sent2 env" s5]
  obtain post where x6: "xfers s6 = xfers s5 @ post" unfolding w2 by auto
  have w2': "wait_packet_sent K (tick K) (ev_sent2 env)
               (set_mode_tx K (load_fifo K (t # this_address s # i # f # data1) s3)) = (sent, s6)"
    using w2 unfolding s5_def fr by simp
  have S: "send K (tick K) env d t i f s = (Inr sent, s6)"
    unfolding send_def Let_def s1_def[symmetric] w
    using c
    by (simp add: s3_def[symmetric] p3 configD(1)[OF c3] w2')
  have "xfers (snd (send K (tick K) env d t i f s))
        = xfers s3 @ [[REG_0D_FIFO_ADDR_PTR K OR 0x80, 0],
                    (REG_00_FIFO K OR 0x80) # frame,
                    [REG_22_PAYLOAD_LENGTH K OR 0x80, int (length frame)],
                    [REG_01_OP_MODE K OR 0x80, MODE_TX K],
                    [REG_40_DIO_MAPPING1 K OR 0x80, 0x40]] @ post"
    unfolding S by (simp add: x6 x5)
  then show ?thesis unfolding S by (simp; blast)
qed


lemmas fg_defs =
  send_def wait_cad_def prepare_data_def tick_def load_fifo_def one_send_def tx_done_def

theorem C4_witness:
  "(\<exists>sent. fst (send K0 (tick K0) one_send (PyBytes (replicate 252 7)) 2 1 0 dev) = Inr sent)
   \<and> (\<exists>pre post. xfers (snd (send K0 (tick K0) one_send (PyBytes (replicate 252 7)) 2 1 0 dev))
          = pre @ [[0x8d, 0], 0x80 # [2, 1, 1, 0] @ replicate 252 7, [0xa2, 256], [0x81, 0x03],
                   [0xc0, 0x40]] @ post)"
  using C4_send_has_no_length_check[of K0 one_send dev "PyBytes (replicate 252 7)"
          "replicate 252 7" "[2, 1, 1, 0] @ replicate 252 7" 2 1 0]
  by (simp add: wait_cad_def prepare_data_def one_send_def tick_def)

text \<open>
  C4 as stated fails: 252 bytes of data make a frame of 256 bytes. \<open>send\<close> loads all
  of them, writes 256 to the payload length register, transmits, and returns \<open>True\<close>.
\<close>

theorem C4_oversized_frame_is_sent:
  "fst (send K0 (tick K0) one_send (PyBytes (replicate 252 7)) 2 1 0 dev) = Inr True
   \<and> xfers (snd (send K0 (tick K0) one_send (PyBytes (replicate 252 7)) 2 1 0 dev))
     = [[0x81, 0x01], [0x8d, 0], 0x80 # 2 # 1 # 1 # 0 # replicate 252 7, [0xa2, 256],
        [0x81, 0x03], [0xc0, 0x40], [0x12, 0], [0x81, 0x05], [0xc0, 0x00], [0x92, 0xff]]"
  by (simp add: fg_defs handler_defs)








end
